theory Spec2Isabelle
  imports
    Main
    "HOL-Library.Word"
    "HOL-Library.Char_ord"
    "HOL-Library.List_Lexorder"
    "HOL-Library.AList"
    "HOL-Library.Multiset"
begin

section \<open>Cluster metadata of p2plab: the data model of metadata/cluster.go\<close>

text \<open>
  The store is a tree of containers (bbolt buckets). A key of a container holds either a
  flat value (a byte string) or a nested container. A container is kept as an association
  list; only its lookup function \<open>map_of\<close> and its key set are ever observed, and the
  keys are iterated in ascending byte order, as the storage engine does.
\<close>

datatype node = Val string | Sub "(string \<times> node) list"

type_synonym bucket = "(string \<times> node) list"

text \<open>
  Modelled from the spec: PeerDefinition is declared outside cluster.go. The spec calls
  it an opaque nested structure that has a codec into a container of its own; it is
  represented here by the contents of that container.
\<close>

datatype PeerDefinition = PeerDefinition (content: bucket)

text \<open>Go's \<open>int\<close> is taken as 64 bits wide and read as two's complement (\<open>sint\<close>).\<close>

record ClusterGroup =
  Size :: "64 word"
  InstanceType :: string
  Region :: string
  Peer :: "PeerDefinition option"
  Labels :: "string list"

record ClusterDefinition =
  Groups :: "ClusterGroup list"

text \<open>
  \<open>ClusterStatus\<close> is a Go string type, so any string is a status. A \<open>time.Time\<close> in
  UTC is an instant, modelled as an integer count of clock ticks; the zero \<open>Time\<close> is 0.
\<close>

type_synonym ClusterStatus = string

type_synonym time = int

record Cluster =
  ID :: string
  Status :: ClusterStatus
  Definition :: ClusterDefinition
  Labels :: "string list"
  CreatedAt :: time
  UpdatedAt :: time

text \<open>The zero value \<open>Cluster{}\<close> and the zero \<open>ClusterGroup\<close> of Go.\<close>

definition zero_group :: ClusterGroup where
  "zero_group =
     \<lparr>Size = 0, InstanceType = [], Region = [], Peer = None, ClusterGroup.Labels = []\<rparr>"

definition zero_cluster :: Cluster where
  "zero_cluster =
     \<lparr>ID = [], Status = [], Definition = \<lparr>Groups = []\<rparr>, Cluster.Labels = [],
      CreatedAt = 0, UpdatedAt = 0\<rparr>"

subsection \<open>Derived views of a definition\<close>

text \<open>
  \<open>GenerateLabels\<close> fills two Go maps used as sets, one of regions and one of instance
  types, and then appends the keys of the first and the keys of the second. A set is a
  duplicate-free list of keys here. Go leaves the iteration order of a map unspecified;
  the model lists the keys in one fixed order, and the statements about the result
  below count occurrences only.
\<close>

fun collect_sets :: "ClusterGroup list \<Rightarrow> string list \<times> string list \<Rightarrow> string list \<times> string list" where
  "collect_sets [] (regionSet, instanceTypeSet) = (regionSet, instanceTypeSet)"
| "collect_sets (g # gs) (regionSet, instanceTypeSet) =
     collect_sets gs (List.insert (Region g) regionSet,
                      List.insert (InstanceType g) instanceTypeSet)"

definition GenerateLabels :: "ClusterDefinition \<Rightarrow> string list" where
  "GenerateLabels d =
     (case collect_sets (Groups d) ([], []) of
        (regionSet, instanceTypeSet) \<Rightarrow> [] @ regionSet @ instanceTypeSet)"

section \<open>Errors\<close>

text \<open>
  The sentinel errors that can reach a caller of cluster.go: those of the errdefs
  package, those of the storage engine, and the \<open>*strconv.NumError\<close> of \<open>strconv.Atoi\<close>.
  \<open>errors.Wrapf\<close> only adds a message and keeps the cause, so an error is identified
  with its cause. \<open>ErrTimeFormat\<close> is the failure of decoding a stored timestamp;
  \<open>NilBucket\<close> stands for the nil dereference of a method called on a nil bucket.
\<close>

datatype error =
    ErrNotFound | ErrAlreadyExists | ErrInvalidArgument
  | ErrBucketExists | ErrBucketNotFound | ErrIncompatibleValue
  | ErrKeyRequired | ErrKeyTooLarge | ErrValueTooLarge | ErrBucketNameRequired
  | NumError | ErrTimeFormat | NilBucket

text \<open>
  Modelled from the spec: the error taxonomy of section 7 has a class FormatError for
  stored data that fails to parse into its expected type.
\<close>

definition is_FormatError :: "error \<Rightarrow> bool" where
  "is_FormatError e = (e = NumError \<or> e = ErrTimeFormat)"

section \<open>Decimal text: strconv.Itoa and strconv.Atoi\<close>

definition digit_char :: "nat \<Rightarrow> char" where
  "digit_char d = char_of (48 + d)"

fun nat_digits :: "nat \<Rightarrow> string" where
  "nat_digits n =
     (if n < 10 then [digit_char n] else nat_digits (n div 10) @ [digit_char (n mod 10)])"

declare nat_digits.simps [simp del]

definition Itoa :: "int \<Rightarrow> string" where
  "Itoa i = (if i < 0 then CHR ''-'' # nat_digits (nat (- i)) else nat_digits (nat i))"

definition digit_val :: "char \<Rightarrow> nat option" where
  "digit_val c =
     (if 48 \<le> (of_char c :: nat) \<and> (of_char c :: nat) \<le> 57
      then Some (of_char c - 48) else None)"

fun parse_digits :: "string \<Rightarrow> nat \<Rightarrow> nat option" where
  "parse_digits [] n = Some n"
| "parse_digits (c # cs) n =
     (case digit_val c of None \<Rightarrow> None | Some d \<Rightarrow> parse_digits cs (n * 10 + d))"

text \<open>
  The syntax that \<open>Atoi\<close> accepts: an optional sign, then one or more decimal digits.
\<close>

definition parse_int :: "string \<Rightarrow> int option" where
  "parse_int s =
     (case s of
        [] \<Rightarrow> None
      | c # cs \<Rightarrow>
          if c = CHR ''-'' then
            (if cs = [] then None else map_option (\<lambda>n. - int n) (parse_digits cs 0))
          else if c = CHR ''+'' then
            (if cs = [] then None else map_option int (parse_digits cs 0))
          else map_option int (parse_digits s 0))"

text \<open>
  \<open>Atoi\<close> fails with a \<open>NumError\<close> on a syntax error and on a value outside the range
  of a 64-bit \<open>int\<close>.
\<close>

definition Atoi :: "string \<Rightarrow> error + 64 word" where
  "Atoi s =
     (case parse_int s of
        None \<Rightarrow> Inl NumError
      | Some i \<Rightarrow>
          if - (2 ^ 63) \<le> i \<and> i < 2 ^ 63 then Inr (word_of_int i) else Inl NumError)"

section \<open>The storage engine: containers of a bbolt transaction\<close>

text \<open>
  Modelled from the spec: the storage engine (the library go.etcd.io/bbolt) is outside
  src/. Section 6 of the spec lists what cluster.go consumes from it: getChild (absent is
  nil), createChild (fails if the key exists), deleteChild (fails if absent), put, and
  forEach over the keys with a nil value for a sub-container. The failure cases that
  the library documents are kept as well: a blank key, a key or value over the size
  limit, and a key that holds the other kind of entry.

  \<open>Bucket\<close> returns the nested container under a key (Go: nil when the key is absent
  or holds a flat value), \<open>Get\<close> the flat value (nil when the key is absent or holds a
  container). In Go a \<open>*bolt.Bucket\<close> is a handle into the transaction; the model
  passes the contents of a container and writes a changed child back into its parent
  with \<open>store_bucket\<close>.
\<close>

definition Bucket :: "bucket \<Rightarrow> string \<Rightarrow> bucket option" where
  "Bucket b k = (case map_of b k of Some (Sub c) \<Rightarrow> Some c | _ \<Rightarrow> None)"

definition Get :: "bucket \<Rightarrow> string \<Rightarrow> string option" where
  "Get b k = (case map_of b k of Some (Val v) \<Rightarrow> Some v | _ \<Rightarrow> None)"

definition store_bucket :: "bucket \<Rightarrow> string \<Rightarrow> bucket \<Rightarrow> bucket" where
  "store_bucket b k c = AList.update k (Sub c) b"

definition MaxKeySize :: int where
  "MaxKeySize = 32768"

definition MaxValueSize :: int where
  "MaxValueSize = 2 ^ 31 - 2"

definition Put :: "bucket \<Rightarrow> string \<Rightarrow> string \<Rightarrow> error + bucket" where
  "Put b k v =
     (if length k = 0 then Inl ErrKeyRequired
      else if int (length k) > MaxKeySize then Inl ErrKeyTooLarge
      else if int (length v) > MaxValueSize then Inl ErrValueTooLarge
      else (case map_of b k of
              Some (Sub c) \<Rightarrow> Inl ErrIncompatibleValue
            | _ \<Rightarrow> Inr (AList.update k (Val v) b)))"

text \<open>\<open>CreateBucket\<close> returns the changed parent and the new, empty child.\<close>

definition CreateBucket :: "bucket \<Rightarrow> string \<Rightarrow> error + bucket \<times> bucket" where
  "CreateBucket b k =
     (if length k = 0 then Inl ErrBucketNameRequired
      else (case map_of b k of
              Some (Sub c) \<Rightarrow> Inl ErrBucketExists
            | Some (Val v) \<Rightarrow> Inl ErrIncompatibleValue
            | None \<Rightarrow> Inr (AList.update k (Sub []) b, [])))"

text \<open>
  \<open>DeleteBucket\<close> seeks the key and compares it with the key that the seek stops at. In
  a container without any key the seek stops at the nil key, which compares equal to the
  empty key; the entry found is then no container, so the empty key in an empty
  container gives \<open>ErrIncompatibleValue\<close>, as a key that holds a flat value does. Every
  other missing key gives \<open>ErrBucketNotFound\<close>.
\<close>

definition DeleteBucket :: "bucket \<Rightarrow> string \<Rightarrow> error + bucket" where
  "DeleteBucket b k =
     (case map_of b k of
        None \<Rightarrow> if length k = 0 \<and> b = [] then Inl ErrIncompatibleValue
                else Inl ErrBucketNotFound
      | Some (Val v) \<Rightarrow> Inl ErrIncompatibleValue
      | Some (Sub c) \<Rightarrow> Inr (AList.delete k b))"

text \<open>
  \<open>ForEach\<close> calls the function on every key in ascending byte order, with a nil value
  (\<open>None\<close>) for a key that holds a container, and stops at the first error. The state
  that the Go closure mutates is threaded through.
\<close>

definition keys_of :: "bucket \<Rightarrow> string list" where
  "keys_of b = sort (remdups (map fst b))"

fun forEach_keys ::
  "string list \<Rightarrow> bucket \<Rightarrow> (string \<Rightarrow> string option \<Rightarrow> 's \<Rightarrow> error + 's) \<Rightarrow> 's \<Rightarrow> error + 's" where
  "forEach_keys [] b fn s = Inr s"
| "forEach_keys (k # ks) b fn s =
     (case fn k (Get b k) s of Inl e \<Rightarrow> Inl e | Inr s' \<Rightarrow> forEach_keys ks b fn s')"

definition ForEach ::
  "bucket \<Rightarrow> (string \<Rightarrow> string option \<Rightarrow> 's \<Rightarrow> error + 's) \<Rightarrow> 's \<Rightarrow> error + 's" where
  "ForEach b fn s = forEach_keys (keys_of b) b fn s"

text \<open>Go's conversion \<open>string(v)\<close> of a byte slice; a nil slice gives the empty string.\<close>

definition string_of :: "string option \<Rightarrow> string" where
  "string_of v = (case v of None \<Rightarrow> [] | Some s \<Rightarrow> s)"

section \<open>Helpers of package metadata that cluster.go calls\<close>

text \<open>
  Modelled from the spec: the reserved keys are declared outside cluster.go. The spec
  names the containers "definition" and "labels" and the flat fields "id" and "status";
  the keys of size, instance type, region and of the two timestamps are reserved keys
  that it does not spell out.
\<close>

definition bucketKeyID :: string where "bucketKeyID = ''id''"
definition bucketKeyStatus :: string where "bucketKeyStatus = ''status''"
definition bucketKeyDefinition :: string where "bucketKeyDefinition = ''definition''"
definition bucketKeyLabels :: string where "bucketKeyLabels = ''labels''"
definition bucketKeySize :: string where "bucketKeySize = ''size''"
definition bucketKeyInstanceType :: string where "bucketKeyInstanceType = ''instanceType''"
definition bucketKeyRegion :: string where "bucketKeyRegion = ''region''"
definition bucketKeyCreatedAt :: string where "bucketKeyCreatedAt = ''createdAt''"
definition bucketKeyUpdatedAt :: string where "bucketKeyUpdatedAt = ''updatedAt''"
definition bucketKeyClusters :: string where "bucketKeyClusters = ''clusters''"

text \<open>
  Modelled from the spec: \<open>RecreateBucket\<close> is defined outside cluster.go. Recreate:
  discard an existing child container's contents and create a fresh one under the same
  key.
\<close>

definition RecreateBucket :: "bucket \<Rightarrow> string \<Rightarrow> error + bucket \<times> bucket" where
  "RecreateBucket bkt key =
     (case Bucket bkt key of
        None \<Rightarrow> CreateBucket bkt key
      | Some nbkt \<Rightarrow>
          (case DeleteBucket bkt key of
             Inl e \<Rightarrow> Inl e
           | Inr bkt' \<Rightarrow> CreateBucket bkt' key))"

text \<open>
  Modelled from the spec: \<open>WriteTimestamps\<close> and \<open>ReadTimestamps\<close> are defined outside
  cluster.go. The two timestamps are a fixed pair of flat fields under reserved keys, in
  a canonical text format; the text of an instant is taken to be its decimal numeral. A
  field that is absent leaves the timestamp passed in as it is; a field that does not
  parse is an error.
\<close>

definition WriteTimestamps :: "bucket \<Rightarrow> time \<Rightarrow> time \<Rightarrow> error + bucket" where
  "WriteTimestamps bkt created updated =
     (case Put bkt bucketKeyCreatedAt (Itoa created) of
        Inl e \<Rightarrow> Inl e
      | Inr bkt1 \<Rightarrow> Put bkt1 bucketKeyUpdatedAt (Itoa updated))"

definition read_time :: "bucket \<Rightarrow> string \<Rightarrow> time \<Rightarrow> error + time" where
  "read_time bkt key t =
     (case Get bkt key of
        None \<Rightarrow> Inr t
      | Some v \<Rightarrow> (case parse_int v of None \<Rightarrow> Inl ErrTimeFormat | Some t' \<Rightarrow> Inr t'))"

definition ReadTimestamps :: "bucket \<Rightarrow> time \<Rightarrow> time \<Rightarrow> error + time \<times> time" where
  "ReadTimestamps bkt created updated =
     (case read_time bkt bucketKeyCreatedAt created of
        Inl e \<Rightarrow> Inl e
      | Inr c \<Rightarrow>
          (case read_time bkt bucketKeyUpdatedAt updated of
             Inl e \<Rightarrow> Inl e
           | Inr u \<Rightarrow> Inr (c, u)))"

text \<open>
  Modelled from the spec: \<open>writeLabels\<close> and \<open>readLabels\<close> are defined outside
  cluster.go. Writing recreates the labels child container and writes one flat field per
  label, the key being the label text and the value an empty, non-nil marker; reading
  lists the keys of that container, and a missing container gives no labels.
\<close>

fun put_labels :: "bucket \<Rightarrow> string list \<Rightarrow> error + bucket" where
  "put_labels lbkt [] = Inr lbkt"
| "put_labels lbkt (l # ls) =
     (case Put lbkt l [] of Inl e \<Rightarrow> Inl e | Inr lbkt' \<Rightarrow> put_labels lbkt' ls)"

definition writeLabels :: "bucket \<Rightarrow> string list \<Rightarrow> error + bucket" where
  "writeLabels bkt labels =
     (case RecreateBucket bkt bucketKeyLabels of
        Inl e \<Rightarrow> Inl e
      | Inr (bkt1, lbkt) \<Rightarrow>
          (case put_labels lbkt labels of
             Inl e \<Rightarrow> Inl e
           | Inr lbkt' \<Rightarrow> Inr (store_bucket bkt1 bucketKeyLabels lbkt')))"

definition readLabels :: "bucket \<Rightarrow> error + string list" where
  "readLabels bkt =
     (case Bucket bkt bucketKeyLabels of
        None \<Rightarrow> Inr []
      | Some lbkt \<Rightarrow> ForEach lbkt (\<lambda>k v labels. Inr (labels @ [k])) [])"

text \<open>
  Modelled from the spec: \<open>writePeerDefinition\<close> and \<open>readPeerDefinition\<close> are defined
  outside cluster.go. The peer definition of a group is written into a container under
  the group's own reserved "definition" key and read back from there; both take the
  group container, as the calls in cluster.go do.
\<close>

definition writePeerDefinition :: "bucket \<Rightarrow> PeerDefinition \<Rightarrow> error + bucket" where
  "writePeerDefinition bkt pdef =
     (case RecreateBucket bkt bucketKeyDefinition of
        Inl e \<Rightarrow> Inl e
      | Inr (bkt1, dbkt) \<Rightarrow> Inr (store_bucket bkt1 bucketKeyDefinition (content pdef)))"

definition readPeerDefinition :: "bucket \<Rightarrow> error + PeerDefinition" where
  "readPeerDefinition bkt =
     (case Bucket bkt bucketKeyDefinition of
        None \<Rightarrow> Inr (PeerDefinition [])
      | Some dbkt \<Rightarrow> Inr (PeerDefinition dbkt))"

text \<open>
  Modelled from the spec: \<open>getClustersBucket\<close> and \<open>createClustersBucket\<close> are defined
  outside cluster.go. Given the root of the store, the first locates the clusters
  collection container (absent is nil), the second creates it when it is missing. The
  root of a transaction is itself a container, and it holds containers only; creating
  the root container has no failure case in the interface that the spec lists
  (createRootContainer(name) gives a container), so the second never returns an error.
\<close>

definition getClustersBucket :: "bucket \<Rightarrow> bucket option" where
  "getClustersBucket tx = Bucket tx bucketKeyClusters"

definition createClustersBucket :: "bucket \<Rightarrow> error + bucket \<times> bucket" where
  "createClustersBucket tx =
     (case Bucket tx bucketKeyClusters of
        Some bkt \<Rightarrow> Inr (tx, bkt)
      | None \<Rightarrow> Inr (store_bucket tx bucketKeyClusters [], []))"

text \<open>
  Modelled from the spec: the methods \<open>View\<close> and \<open>Update\<close> of \<open>db\<close> are defined outside
  cluster.go. Every operation runs in exactly one transaction; a read-write transaction
  commits what its function wrote when the function returns no error, and aborts on any
  error, leaving the store as it was. The function of an \<open>Update\<close> returns the new root
  together with what the Go closure assigned to captured variables.
\<close>

definition View :: "bucket \<Rightarrow> (bucket \<Rightarrow> error + 'a) \<Rightarrow> error + 'a" where
  "View m fn = fn m"

definition Update :: "bucket \<Rightarrow> (bucket \<Rightarrow> error + 'a \<times> bucket) \<Rightarrow> (error + 'a) \<times> bucket" where
  "Update m fn =
     (case fn m of
        Inl e \<Rightarrow> (Inl e, m)
      | Inr (r, tx) \<Rightarrow> (Inr r, tx))"

text \<open>
  Modelled from the spec: \<open>batchUpdateLabels\<close> is defined outside cluster.go. The
  precondition of the batch is that all identifiers are present, and its failure is
  NotFound if any identifier is missing: the presence of every identifier is checked
  before any entity is handled. Then, for each identifier in turn: read the current
  labels, add the requested labels (adding a label already present is a no-op), remove
  the requested labels (removing an absent label is a no-op), and hand the container,
  the identifier and the new labels to the function passed in; the first failure ends
  the batch. The order of the new labels is not fixed by the spec.
\<close>

definition updateLabels :: "string list \<Rightarrow> string list \<Rightarrow> string list \<Rightarrow> string list" where
  "updateLabels labels adds removes =
     filter (\<lambda>l. l \<notin> set removes) (remdups (labels @ adds))"

fun update_each ::
  "bucket \<Rightarrow> string list \<Rightarrow> string list \<Rightarrow> string list \<Rightarrow>
   (bucket \<Rightarrow> string \<Rightarrow> string list \<Rightarrow> 's \<Rightarrow> error + bucket \<times> 's) \<Rightarrow> 's \<Rightarrow> error + bucket \<times> 's" where
  "update_each bkt [] adds removes f s = Inr (bkt, s)"
| "update_each bkt (i # ids) adds removes f s =
     (case Bucket bkt i of
        None \<Rightarrow> Inl ErrNotFound
      | Some ibkt \<Rightarrow>
          (case readLabels ibkt of
             Inl e \<Rightarrow> Inl e
           | Inr labels \<Rightarrow>
               (case f ibkt i (updateLabels labels adds removes) s of
                  Inl e \<Rightarrow> Inl e
                | Inr (ibkt', s') \<Rightarrow>
                    update_each (store_bucket bkt i ibkt') ids adds removes f s')))"

definition present :: "bucket \<Rightarrow> string \<Rightarrow> bool" where
  "present bkt i = (case Bucket bkt i of None \<Rightarrow> False | Some ibkt \<Rightarrow> True)"

definition batchUpdateLabels ::
  "bucket \<Rightarrow> string list \<Rightarrow> string list \<Rightarrow> string list \<Rightarrow>
   (bucket \<Rightarrow> string \<Rightarrow> string list \<Rightarrow> 's \<Rightarrow> error + bucket \<times> 's) \<Rightarrow> 's \<Rightarrow> error + bucket \<times> 's" where
  "batchUpdateLabels bkt ids adds removes f s =
     (if list_all (present bkt) ids then update_each bkt ids adds removes f s
      else Inl ErrNotFound)"

section \<open>The entity codec of cluster.go\<close>

text \<open>The loop \<open>for _, f := range []field{...} { err = bkt.Put(f.key, f.value) ... }\<close>.\<close>

fun put_fields :: "bucket \<Rightarrow> (string \<times> string) list \<Rightarrow> error + bucket" where
  "put_fields bkt [] = Inr bkt"
| "put_fields bkt ((key, v) # fs) =
     (case Put bkt key v of Inl e \<Rightarrow> Inl e | Inr bkt' \<Rightarrow> put_fields bkt' fs)"

text \<open>The body of the loop of \<open>writeClusterDefinition\<close>, for the group at position \<open>i\<close>.\<close>

definition write_group :: "bucket \<Rightarrow> nat \<Rightarrow> ClusterGroup \<Rightarrow> error + bucket" where
  "write_group dbkt i grp =
     (case CreateBucket dbkt (Itoa (int i)) of
        Inl e \<Rightarrow> Inl e
      | Inr (dbkt1, gbkt) \<Rightarrow>
          (case writeLabels gbkt (ClusterGroup.Labels grp) of
             Inl e \<Rightarrow> Inl e
           | Inr gbkt1 \<Rightarrow>
               (case (case Peer grp of
                        None \<Rightarrow> Inr gbkt1
                      | Some pdef \<Rightarrow> writePeerDefinition gbkt1 pdef) of
                  Inl e \<Rightarrow> Inl e
                | Inr gbkt2 \<Rightarrow>
                    (case put_fields gbkt2
                            [(bucketKeySize, Itoa (sint (Size grp))),
                             (bucketKeyInstanceType, InstanceType grp),
                             (bucketKeyRegion, Region grp)] of
                       Inl e \<Rightarrow> Inl e
                     | Inr gbkt3 \<Rightarrow> Inr (store_bucket dbkt1 (Itoa (int i)) gbkt3)))))"

fun write_groups :: "bucket \<Rightarrow> nat \<Rightarrow> ClusterGroup list \<Rightarrow> error + bucket" where
  "write_groups dbkt i [] = Inr dbkt"
| "write_groups dbkt i (grp # gs) =
     (case write_group dbkt i grp of
        Inl e \<Rightarrow> Inl e
      | Inr dbkt' \<Rightarrow> write_groups dbkt' (Suc i) gs)"

definition writeClusterDefinition :: "bucket \<Rightarrow> ClusterDefinition \<Rightarrow> error + bucket" where
  "writeClusterDefinition bkt cdef =
     (case RecreateBucket bkt bucketKeyDefinition of
        Inl e \<Rightarrow> Inl e
      | Inr (bkt1, dbkt) \<Rightarrow>
          (case write_groups dbkt 0 (Groups cdef) of
             Inl e \<Rightarrow> Inl e
           | Inr dbkt' \<Rightarrow> Inr (store_bucket bkt1 bucketKeyDefinition dbkt')))"

definition writeCluster :: "bucket \<Rightarrow> Cluster \<Rightarrow> error + bucket" where
  "writeCluster bkt cluster =
     (case WriteTimestamps bkt (CreatedAt cluster) (UpdatedAt cluster) of
        Inl e \<Rightarrow> Inl e
      | Inr bkt1 \<Rightarrow>
          (case writeClusterDefinition bkt1 (Definition cluster) of
             Inl e \<Rightarrow> Inl e
           | Inr bkt2 \<Rightarrow>
               (case writeLabels bkt2 (Cluster.Labels cluster) of
                  Inl e \<Rightarrow> Inl e
                | Inr bkt3 \<Rightarrow>
                    put_fields bkt3
                      [(bucketKeyID, ID cluster), (bucketKeyStatus, Status cluster)])))"

text \<open>The function that \<open>readClusterDefinition\<close> passes to \<open>gbkt.ForEach\<close>.\<close>

definition group_field :: "string \<Rightarrow> string option \<Rightarrow> ClusterGroup \<Rightarrow> error + ClusterGroup" where
  "group_field k v grp =
     (if k = bucketKeySize then
        (case Atoi (string_of v) of
           Inl e \<Rightarrow> Inl e
         | Inr sz \<Rightarrow> Inr (grp\<lparr>Size := sz\<rparr>))
      else if k = bucketKeyInstanceType then Inr (grp\<lparr>InstanceType := string_of v\<rparr>)
      else if k = bucketKeyRegion then Inr (grp\<lparr>Region := string_of v\<rparr>)
      else Inr grp)"

text \<open>The body of the loop of \<open>readClusterDefinition\<close>, for one group container.\<close>

definition read_group :: "bucket \<Rightarrow> error + ClusterGroup" where
  "read_group gbkt =
     (case readLabels gbkt of
        Inl e \<Rightarrow> Inl e
      | Inr labels \<Rightarrow>
          (case (case Bucket gbkt bucketKeyDefinition of
                   None \<Rightarrow> Inr (zero_group\<lparr>ClusterGroup.Labels := labels\<rparr>)
                 | Some pdbkt \<Rightarrow>
                     (case readPeerDefinition gbkt of
                        Inl e \<Rightarrow> Inl e
                      | Inr pdef \<Rightarrow>
                          Inr (zero_group\<lparr>ClusterGroup.Labels := labels, Peer := Some pdef\<rparr>))) of
             Inl e \<Rightarrow> Inl e
           | Inr grp \<Rightarrow> ForEach gbkt group_field grp))"

text \<open>
  The loop of \<open>readClusterDefinition\<close>: probe the keys \<open>Itoa 0\<close>, \<open>Itoa 1\<close>, ... until a
  probe misses. It ends because a container has finitely many keys (see the
  termination proof below).
\<close>

function read_groups :: "bucket \<Rightarrow> nat \<Rightarrow> ClusterDefinition \<Rightarrow> error + ClusterDefinition" where
  "read_groups dbkt i cdef =
     (case Bucket dbkt (Itoa (int i)) of
        None \<Rightarrow> Inr cdef
      | Some gbkt \<Rightarrow>
          (case read_group gbkt of
             Inl e \<Rightarrow> Inl e
           | Inr grp \<Rightarrow> read_groups dbkt (Suc i) (cdef\<lparr>Groups := Groups cdef @ [grp]\<rparr>)))"
  by pat_completeness auto

definition readClusterDefinition :: "bucket \<Rightarrow> error + ClusterDefinition" where
  "readClusterDefinition bkt =
     (case Bucket bkt bucketKeyDefinition of
        None \<Rightarrow> Inr \<lparr>Groups = []\<rparr>
      | Some dbkt \<Rightarrow> read_groups dbkt 0 \<lparr>Groups = []\<rparr>)"

text \<open>The function that \<open>readCluster\<close> passes to \<open>bkt.ForEach\<close>.\<close>

definition cluster_field :: "string \<Rightarrow> string option \<Rightarrow> Cluster \<Rightarrow> error + Cluster" where
  "cluster_field k v cluster =
     (case v of
        None \<Rightarrow> Inr cluster
      | Some val \<Rightarrow>
          if k = bucketKeyID then Inr (cluster\<lparr>ID := val\<rparr>)
          else if k = bucketKeyStatus then Inr (cluster\<lparr>Status := val\<rparr>)
          else Inr cluster)"

definition readCluster :: "bucket \<Rightarrow> Cluster \<Rightarrow> error + Cluster" where
  "readCluster bkt cluster =
     (case ReadTimestamps bkt (CreatedAt cluster) (UpdatedAt cluster) of
        Inl e \<Rightarrow> Inl e
      | Inr (created, updated) \<Rightarrow>
          (case readClusterDefinition bkt of
             Inl e \<Rightarrow> Inl e
           | Inr cdef \<Rightarrow>
               (case readLabels bkt of
                  Inl e \<Rightarrow> Inl e
                | Inr labels \<Rightarrow>
                    ForEach bkt cluster_field
                      (cluster\<lparr>CreatedAt := created, UpdatedAt := updated,
                               Definition := cdef, Cluster.Labels := labels\<rparr>))))"

section \<open>The lifecycle operations of cluster.go\<close>

text \<open>
  An operation takes the store \<open>m\<close> (the root container) and returns its result with the
  store after it. \<open>time.Now().UTC()\<close> is the parameter \<open>now\<close>. \<open>ValidateClusterID\<close> is
  defined outside cluster.go and is the parameter \<open>vid\<close>.
\<close>

definition Validate :: "(string \<Rightarrow> error + unit) \<Rightarrow> Cluster \<Rightarrow> error + unit" where
  "Validate vid c = (case vid (ID c) of Inl e \<Rightarrow> Inl e | Inr u \<Rightarrow> Inr ())"

definition GetCluster :: "bucket \<Rightarrow> string \<Rightarrow> error + Cluster" where
  "GetCluster m i =
     View m (\<lambda>tx.
       case getClustersBucket tx of
         None \<Rightarrow> Inl ErrNotFound
       | Some bkt \<Rightarrow>
           (case Bucket bkt i of
              None \<Rightarrow> Inl ErrNotFound
            | Some cbkt \<Rightarrow> readCluster cbkt (zero_cluster\<lparr>ID := i\<rparr>)))"

definition list_entry :: "bucket \<Rightarrow> string \<Rightarrow> string option \<Rightarrow> Cluster list \<Rightarrow> error + Cluster list" where
  "list_entry bkt k v clusters =
     (case Bucket bkt k of
        None \<Rightarrow> Inl NilBucket
      | Some cbkt \<Rightarrow>
          (case readCluster cbkt (zero_cluster\<lparr>ID := k\<rparr>) of
             Inl e \<Rightarrow> Inl e
           | Inr cluster \<Rightarrow> Inr (clusters @ [cluster])))"

definition ListClusters :: "bucket \<Rightarrow> error + Cluster list" where
  "ListClusters m =
     View m (\<lambda>tx.
       case getClustersBucket tx of
         None \<Rightarrow> Inr []
       | Some bkt \<Rightarrow> ForEach bkt (list_entry bkt) [])"

definition CreateCluster ::
  "(string \<Rightarrow> error + unit) \<Rightarrow> time \<Rightarrow> bucket \<Rightarrow> Cluster \<Rightarrow> (error + Cluster) \<times> bucket" where
  "CreateCluster vid now m cluster =
     (case Validate vid cluster of
        Inl e \<Rightarrow> (Inl e, m)
      | Inr u \<Rightarrow>
          Update m (\<lambda>tx.
            case createClustersBucket tx of
              Inl e \<Rightarrow> Inl e
            | Inr (tx1, bkt) \<Rightarrow>
                (case CreateBucket bkt (ID cluster) of
                   Inl e \<Rightarrow> if e \<noteq> ErrBucketExists then Inl e else Inl ErrAlreadyExists
                 | Inr (bkt1, cbkt) \<Rightarrow>
                     (case writeCluster cbkt (cluster\<lparr>CreatedAt := now, UpdatedAt := now\<rparr>) of
                        Inl e \<Rightarrow> Inl e
                      | Inr cbkt' \<Rightarrow>
                          Inr (cluster\<lparr>CreatedAt := now, UpdatedAt := now\<rparr>,
                               store_bucket tx1 bucketKeyClusters
                                 (store_bucket bkt1 (ID cluster) cbkt'))))))"

definition UpdateCluster :: "time \<Rightarrow> bucket \<Rightarrow> Cluster \<Rightarrow> (error + Cluster) \<times> bucket" where
  "UpdateCluster now m cluster =
     (if ID cluster = [] then (Inl ErrInvalidArgument, m)
      else
        Update m (\<lambda>tx.
          case createClustersBucket tx of
            Inl e \<Rightarrow> Inl e
          | Inr (tx1, bkt) \<Rightarrow>
              (case Bucket bkt (ID cluster) of
                 None \<Rightarrow> Inl ErrNotFound
               | Some cbkt \<Rightarrow>
                   (case writeCluster cbkt (cluster\<lparr>UpdatedAt := now\<rparr>) of
                      Inl e \<Rightarrow> Inl e
                    | Inr cbkt' \<Rightarrow>
                        Inr (cluster\<lparr>UpdatedAt := now\<rparr>,
                             store_bucket tx1 bucketKeyClusters
                               (store_bucket bkt (ID cluster) cbkt'))))))"

text \<open>The function that \<open>LabelClusters\<close> passes to \<open>batchUpdateLabels\<close>.\<close>

definition label_one ::
  "time \<Rightarrow> bucket \<Rightarrow> string \<Rightarrow> string list \<Rightarrow> Cluster list \<Rightarrow> error + bucket \<times> Cluster list" where
  "label_one now ibkt i labels clusters =
     (case readCluster ibkt (zero_cluster\<lparr>ID := i\<rparr>) of
        Inl e \<Rightarrow> Inl e
      | Inr cluster \<Rightarrow>
          (case writeCluster ibkt (cluster\<lparr>Cluster.Labels := labels, UpdatedAt := now\<rparr>) of
             Inl e \<Rightarrow> Inl e
           | Inr ibkt' \<Rightarrow>
               Inr (ibkt', clusters @ [cluster\<lparr>Cluster.Labels := labels, UpdatedAt := now\<rparr>])))"

definition LabelClusters ::
  "time \<Rightarrow> bucket \<Rightarrow> string list \<Rightarrow> string list \<Rightarrow> string list \<Rightarrow> (error + Cluster list) \<times> bucket" where
  "LabelClusters now m ids adds removes =
     Update m (\<lambda>tx.
       case createClustersBucket tx of
         Inl e \<Rightarrow> Inl e
       | Inr (tx1, bkt) \<Rightarrow>
           (case batchUpdateLabels bkt ids adds removes (label_one now) [] of
              Inl e \<Rightarrow> Inl e
            | Inr (bkt', clusters) \<Rightarrow> Inr (clusters, store_bucket tx1 bucketKeyClusters bkt')))"

definition DeleteCluster :: "bucket \<Rightarrow> string \<Rightarrow> (error + unit) \<times> bucket" where
  "DeleteCluster m i =
     Update m (\<lambda>tx.
       case getClustersBucket tx of
         None \<Rightarrow> Inr ((), tx)
       | Some bkt \<Rightarrow>
           (case DeleteBucket bkt i of
              Inl e \<Rightarrow> if e = ErrBucketNotFound then Inl ErrNotFound else Inl e
            | Inr bkt' \<Rightarrow> Inr ((), store_bucket tx bucketKeyClusters bkt')))"

section \<open>What a stored cluster decodes to\<close>

text \<open>
  The keys of a labels container come back in ascending order and without repetitions,
  so a decoded label list is the sorted, duplicate-free list of the labels written.
\<close>

definition canon_group :: "ClusterGroup \<Rightarrow> ClusterGroup" where
  "canon_group g = g\<lparr>ClusterGroup.Labels := sort (remdups (ClusterGroup.Labels g))\<rparr>"

definition canon_cluster :: "Cluster \<Rightarrow> Cluster" where
  "canon_cluster c =
     c\<lparr>Cluster.Labels := sort (remdups (Cluster.Labels c)),
       Definition := \<lparr>Groups = map canon_group (Groups (Definition c))\<rparr>\<rparr>"

section \<open>Notions of the spec used in the statements\<close>

text \<open>
  The spec speaks of a size text that is, or is not, a valid decimal integer. Such a
  text is taken to be an optional sign followed by one or more decimal digits. This
  definition follows the spec, not the code; \<open>parse_int\<close> above is what the code
  accepts.
\<close>

definition is_digit :: "char \<Rightarrow> bool" where
  "is_digit c = (CHR ''0'' \<le> c \<and> c \<le> CHR ''9'')"

definition decimal_text :: "string \<Rightarrow> bool" where
  "decimal_text s =
     (case s of
        [] \<Rightarrow> False
      | c # cs \<Rightarrow>
          if c = CHR ''-'' \<or> c = CHR ''+'' then cs \<noteq> [] \<and> list_all is_digit cs
          else list_all is_digit s)"

section \<open>Example values\<close>

text \<open>A cluster of two groups, the second with a peer definition, and its encoding.\<close>

definition demo_cluster :: Cluster where
  "demo_cluster =
     \<lparr>ID = ''c1'', Status = ''created'',
      Definition = \<lparr>Groups =
        [\<lparr>Size = 3, InstanceType = ''m5'', Region = ''us'', Peer = None,
            ClusterGroup.Labels = [''b'', ''a'']\<rparr>,
         \<lparr>Size = - 1, InstanceType = ''t2'', Region = ''eu'',
            Peer = Some (PeerDefinition [(''ref'', Val ''x'')]),
            ClusterGroup.Labels = []\<rparr>]\<rparr>,
      Cluster.Labels = [''prod'', ''dev''], CreatedAt = 5, UpdatedAt = 7\<rparr>"

definition demo_bucket :: bucket where
  "demo_bucket =
     [(''createdAt'', Val ''5''), (''updatedAt'', Val ''7''),
      (''definition'',
       Sub [(''0'',
             Sub [(''labels'', Sub [(''b'', Val []), (''a'', Val [])]),
                  (''size'', Val ''3''), (''instanceType'', Val ''m5''),
                  (''region'', Val ''us'')]),
            (''1'',
             Sub [(''labels'', Sub []),
                  (''definition'', Sub [(''ref'', Val ''x'')]),
                  (''size'', Val ''-1''), (''instanceType'', Val ''t2''),
                  (''region'', Val ''eu'')])]),
      (''labels'', Sub [(''prod'', Val []), (''dev'', Val [])]),
      (''id'', Val ''c1''), (''status'', Val ''created'')]"

text \<open>
  An identifier validator (only the non-empty rule of the spec), the store after creating
  the example cluster at time 5, and stores that this code did not write: one whose
  collection holds a flat value, one whose entity holds another identifier than its
  key, a definition container with a gap at index 1, and a cluster container whose
  second group has an unparsable size.
\<close>

definition nonempty_id :: "string \<Rightarrow> error + unit" where
  "nonempty_id i = (if i = [] then Inl ErrInvalidArgument else Inr ())"

definition demo_store :: bucket where
  "demo_store = snd (CreateCluster nonempty_id 5 [] demo_cluster)"

definition flat_entry_store :: bucket where
  "flat_entry_store = [(''clusters'', Sub [(''x'', Val ''v'')])]"

definition foreign_id_store :: bucket where
  "foreign_id_store = [(''clusters'', Sub [(''k1'', Sub [(''id'', Val ''other'')])])]"

definition gap_definition :: bucket where
  "gap_definition =
     [(''0'', Sub [(''size'', Val ''3'')]), (''2'', Sub [(''size'', Val ''4'')])]"

definition bad_size_cluster :: bucket where
  "bad_size_cluster =
     [(''definition'',
       Sub [(''0'', Sub [(''size'', Val ''3'')]), (''1'', Sub [(''size'', Val ''3x'')])])]"

section \<open>Properties\<close>

subsection \<open>Decimal text round trip\<close>

lemma digit_val_digit_char: "d < 10 \<Longrightarrow> digit_val (digit_char d) = Some d"
  by (simp add: digit_val_def digit_char_def)

lemma parse_digits_append:
  "parse_digits (xs @ ys) n =
     (case parse_digits xs n of None \<Rightarrow> None | Some m \<Rightarrow> parse_digits ys m)"
  by (induction xs arbitrary: n) (auto split: option.splits)

lemma parse_digits_nat_digits: "parse_digits (nat_digits n) 0 = Some n"
proof (induction n rule: nat_digits.induct)
  case (1 n)
  show ?case
  proof (cases "n < 10")
    case True
    then show ?thesis
      by (subst nat_digits.simps) (simp add: digit_val_digit_char)
  next
    case False
    with 1 have "parse_digits (nat_digits (n div 10)) 0 = Some (n div 10)" by simp
    with False show ?thesis
      by (subst nat_digits.simps) (simp add: parse_digits_append digit_val_digit_char)
  qed
qed

lemma nat_digits_not_Nil: "nat_digits n \<noteq> []"
  by (subst nat_digits.simps) simp

lemma hd_nat_digits: "\<exists>d<10. hd (nat_digits n) = digit_char d"
proof (induction n rule: nat_digits.induct)
  case (1 n)
  show ?case
  proof (cases "n < 10")
    case True
    then show ?thesis by (subst nat_digits.simps) auto
  next
    case False
    with 1 show ?thesis
      by (subst nat_digits.simps) (simp add: nat_digits_not_Nil)
  qed
qed

lemma digit_char_not_sign: "d < 10 \<Longrightarrow> digit_char d \<noteq> CHR ''-'' \<and> digit_char d \<noteq> CHR ''+''"
proof -
  assume d: "d < 10"
  have "of_char (digit_char d) = 48 + d"
    using d by (simp add: digit_char_def)
  then show ?thesis by auto
qed

lemma hd_nat_digits_not_sign:
  "hd (nat_digits n) \<noteq> CHR ''-'' \<and> hd (nat_digits n) \<noteq> CHR ''+''"
proof -
  obtain d where "d < 10" "hd (nat_digits n) = digit_char d"
    using hd_nat_digits [of n] by blast
  then show ?thesis
    using digit_char_not_sign [of d] by simp
qed

lemma parse_int_nat_digits: "parse_int (nat_digits n) = Some (int n)"
proof -
  obtain c cs where eq: "nat_digits n = c # cs"
    using nat_digits_not_Nil [of n] by (cases "nat_digits n") auto
  with hd_nat_digits_not_sign [of n] have "c \<noteq> CHR ''-''" "c \<noteq> CHR ''+''" by auto
  moreover have "parse_digits (c # cs) 0 = Some n"
    using parse_digits_nat_digits [of n] eq by simp
  ultimately show ?thesis
    unfolding parse_int_def eq by simp
qed

lemma parse_int_Itoa: "parse_int (Itoa i) = Some i"
proof (cases "i < 0")
  case True
  then show ?thesis
    by (simp add: Itoa_def parse_int_def nat_digits_not_Nil parse_digits_nat_digits)
next
  case False
  then show ?thesis
    by (simp add: Itoa_def parse_int_nat_digits)
qed

lemma Itoa_inject: "Itoa i = Itoa j \<longleftrightarrow> i = j"
  by (metis parse_int_Itoa option.inject)

lemma Itoa_not_Nil: "Itoa i \<noteq> []"
  by (simp add: Itoa_def nat_digits_not_Nil)

lemma Atoi_Itoa: "Atoi (Itoa (sint (w :: 64 word))) = Inr w"
proof -
  have "- (2 ^ 63) \<le> sint w" "sint w < 2 ^ 63"
    using sint_ge [of w] sint_lt [of w] by simp_all
  then show ?thesis
    by (simp add: Atoi_def parse_int_Itoa)
qed

lemma Atoi_error: "Atoi s = Inl e \<Longrightarrow> e = NumError"
  by (auto simp: Atoi_def split: option.splits if_splits)

subsection \<open>Containers as finite maps\<close>

lemma map_of_store_bucket [simp]:
  "map_of (store_bucket b k c) = (map_of b)(k \<mapsto> Sub c)"
  by (simp add: store_bucket_def update_conv')

lemma Put_Inr:
  "Put b k v = Inr b' \<Longrightarrow> map_of b' = (map_of b)(k \<mapsto> Val v)"
  by (auto simp: Put_def update_conv' split: if_splits option.splits node.splits)

lemma CreateBucket_Inr:
  "CreateBucket b k = Inr (b', c) \<Longrightarrow> map_of b' = (map_of b)(k \<mapsto> Sub []) \<and> c = []"
  by (auto simp: CreateBucket_def update_conv' split: if_splits option.splits node.splits)

lemma DeleteBucket_Inr:
  "DeleteBucket b k = Inr b' \<Longrightarrow> map_of b' = (map_of b)(k := None)"
  by (auto simp: DeleteBucket_def delete_conv' split: if_splits option.splits node.splits)

lemma RecreateBucket_Inr:
  "RecreateBucket b k = Inr (b', c) \<Longrightarrow> map_of b' = (map_of b)(k \<mapsto> Sub []) \<and> c = []"
  by (auto simp: RecreateBucket_def split: option.splits sum.splits
           dest!: CreateBucket_Inr DeleteBucket_Inr)

lemma Bucket_map_of: "map_of b = map_of b' \<Longrightarrow> Bucket b = Bucket b'"
  by (auto simp: Bucket_def fun_eq_iff)

lemma Get_map_of: "map_of b = map_of b' \<Longrightarrow> Get b = Get b'"
  by (auto simp: Get_def fun_eq_iff)

lemma keys_of_conv: "keys_of b = sorted_list_of_set (dom (map_of b))"
proof -
  have "sorted_list_of_set (set (map fst b)) = sort (remdups (map fst b))"
    by (rule sorted_list_of_set_sort_remdups)
  then show ?thesis
    by (simp add: keys_of_def dom_map_of_conv_image_fst)
qed

lemma set_keys_of [simp]: "set (keys_of b) = dom (map_of b)"
  by (simp add: keys_of_conv finite_dom_map_of)

lemma distinct_keys_of [simp]: "distinct (keys_of b)"
  by (simp add: keys_of_conv)

lemma finite_probe_keys: "finite {j. Bucket dbkt (Itoa (int j)) \<noteq> None}"
proof -
  have "{j. Bucket dbkt (Itoa (int j)) \<noteq> None} \<subseteq> (\<lambda>j. Itoa (int j)) -` dom (map_of dbkt)"
    by (auto simp: Bucket_def split: option.splits)
  moreover have "finite ((\<lambda>j. Itoa (int j)) -` dom (map_of dbkt))"
    by (rule finite_vimageI) (auto simp: finite_dom_map_of inj_on_def Itoa_inject)
  ultimately show ?thesis by (rule finite_subset)
qed

termination read_groups
proof (relation "measure (\<lambda>(dbkt, i, cdef). card {j. i \<le> j \<and> Bucket dbkt (Itoa (int j)) \<noteq> None})")
  show "wf (measure (\<lambda>(dbkt, i, cdef). card {j. i \<le> j \<and> Bucket dbkt (Itoa (int j)) \<noteq> None}))"
    by simp
next
  fix dbkt :: bucket and i :: nat and cdef :: ClusterDefinition and gbkt grp
  assume hit: "Bucket dbkt (Itoa (int i)) = Some gbkt"
  let ?S = "\<lambda>i. {j. i \<le> j \<and> Bucket dbkt (Itoa (int j)) \<noteq> None}"
  have fin: "finite (?S i)"
    by (rule finite_subset [OF _ finite_probe_keys [of dbkt]]) auto
  have "i \<in> ?S i" "i \<notin> ?S (Suc i)" "?S (Suc i) \<subseteq> ?S i"
    using hit by auto
  then have "?S (Suc i) \<subset> ?S i"
    by blast
  then have "card (?S (Suc i)) < card (?S i)"
    using fin by (rule psubset_card_mono [rotated])
  then show "((dbkt, Suc i, cdef\<lparr>Groups := Groups cdef @ [grp]\<rparr>), (dbkt, i, cdef))
      \<in> measure (\<lambda>(dbkt, i, cdef). card {j. i \<le> j \<and> Bucket dbkt (Itoa (int j)) \<noteq> None})"
    by simp
qed

declare read_groups.simps [simp del]

lemma forEach_keys_append_key:
  "forEach_keys ks b (\<lambda>k v labels. Inr (labels @ [k])) acc = Inr (acc @ ks)"
  by (induction ks arbitrary: acc) auto

lemma readLabels_conv:
  "readLabels b = Inr (case Bucket b bucketKeyLabels of None \<Rightarrow> [] | Some lbkt \<Rightarrow> keys_of lbkt)"
  by (simp add: readLabels_def ForEach_def forEach_keys_append_key split: option.splits)

subsection \<open>Writing and reading labels and fields\<close>

lemmas bucketKey_defs =
  bucketKeyID_def bucketKeyStatus_def bucketKeyDefinition_def bucketKeyLabels_def
  bucketKeySize_def bucketKeyInstanceType_def bucketKeyRegion_def
  bucketKeyCreatedAt_def bucketKeyUpdatedAt_def bucketKeyClusters_def

lemma Bucket_upd:
  "map_of b' = (map_of b)(k \<mapsto> n) \<Longrightarrow>
   Bucket b' k' = (if k' = k then (case n of Sub c \<Rightarrow> Some c | Val v \<Rightarrow> None) else Bucket b k')"
  by (auto simp: Bucket_def split: node.splits)

lemma put_labels_dom:
  "put_labels lbkt ls = Inr lbkt' \<Longrightarrow> dom (map_of lbkt') = dom (map_of lbkt) \<union> set ls"
proof (induction ls arbitrary: lbkt)
  case Nil
  then show ?case by simp
next
  case (Cons l ls)
  from Cons.prems obtain b1 where p: "Put lbkt l [] = Inr b1" and r: "put_labels b1 ls = Inr lbkt'"
    by (auto split: sum.splits)
  from Put_Inr [OF p] have "dom (map_of b1) = insert l (dom (map_of lbkt))" by simp
  with Cons.IH [OF r] show ?case by auto
qed

lemma writeLabels_Inr:
  assumes "writeLabels b ls = Inr b'"
  shows "\<exists>L. map_of b' = (map_of b)(bucketKeyLabels \<mapsto> Sub L) \<and> keys_of L = sort (remdups ls)"
proof -
  from assms obtain b1 c L where rc: "RecreateBucket b bucketKeyLabels = Inr (b1, c)"
    and pl: "put_labels c ls = Inr L" and b': "b' = store_bucket b1 bucketKeyLabels L"
    by (auto simp: writeLabels_def split: sum.splits prod.splits)
  from RecreateBucket_Inr [OF rc] have b1: "map_of b1 = (map_of b)(bucketKeyLabels \<mapsto> Sub [])" and c: "c = []"
    by auto
  from put_labels_dom [OF pl] c have "dom (map_of L) = set ls" by simp
  then have "keys_of L = sort (remdups ls)"
    by (simp add: keys_of_conv sorted_list_of_set_sort_remdups)
  moreover have "map_of b' = (map_of b)(bucketKeyLabels \<mapsto> Sub L)"
    by (simp add: b' b1)
  ultimately show ?thesis by blast
qed

lemma writePeerDefinition_Inr:
  "writePeerDefinition b p = Inr b' \<Longrightarrow>
   map_of b' = (map_of b)(bucketKeyDefinition \<mapsto> Sub (content p))"
  by (auto simp: writePeerDefinition_def split: sum.splits prod.splits dest!: RecreateBucket_Inr)

lemma forEach_group_field:
  "distinct ks \<Longrightarrow>
   forEach_keys ks b group_field g =
     (case (if bucketKeySize \<in> set ks then Atoi (string_of (Get b bucketKeySize))
            else Inr (Size g)) of
        Inl e \<Rightarrow> Inl e
      | Inr sz \<Rightarrow>
          Inr \<lparr>Size = sz,
               InstanceType = (if bucketKeyInstanceType \<in> set ks
                               then string_of (Get b bucketKeyInstanceType) else InstanceType g),
               Region = (if bucketKeyRegion \<in> set ks
                         then string_of (Get b bucketKeyRegion) else Region g),
               Peer = Peer g, ClusterGroup.Labels = ClusterGroup.Labels g\<rparr>)"
proof (induction ks arbitrary: g)
  case Nil
  then show ?case by simp
next
  case (Cons k ks)
  then show ?case
    by (auto simp: group_field_def bucketKey_defs split: sum.splits)
qed

lemma forEach_cluster_field:
  "distinct ks \<Longrightarrow>
   forEach_keys ks b cluster_field c =
     Inr (c\<lparr>ID := (if bucketKeyID \<in> set ks
                    then (case Get b bucketKeyID of None \<Rightarrow> ID c | Some v \<Rightarrow> v) else ID c),
            Status := (if bucketKeyStatus \<in> set ks
                    then (case Get b bucketKeyStatus of None \<Rightarrow> Status c | Some v \<Rightarrow> v)
                    else Status c)\<rparr>)"
proof (induction ks arbitrary: c)
  case Nil
  then show ?case by simp
next
  case (Cons k ks)
  then show ?case
    by (auto simp: cluster_field_def bucketKey_defs split: option.splits)
qed

lemma Get_in_dom: "Get b k = Some v \<Longrightarrow> k \<in> dom (map_of b)"
  by (auto simp: Get_def split: option.splits node.splits)

lemma ForEach_cluster_field:
  "ForEach b cluster_field c =
     Inr (c\<lparr>ID := (case Get b bucketKeyID of None \<Rightarrow> ID c | Some v \<Rightarrow> v),
            Status := (case Get b bucketKeyStatus of None \<Rightarrow> Status c | Some v \<Rightarrow> v)\<rparr>)"
proof -
  have "k \<notin> dom (map_of b) \<Longrightarrow> Get b k = None" for k
    by (auto simp: Get_def split: option.splits node.splits)
  then show ?thesis
    by (auto simp: ForEach_def forEach_cluster_field split: option.splits)
qed

subsection \<open>Writing and reading one group\<close>

lemma put_fields_group_Inr:
  "put_fields b [(k1, v1), (k2, v2), (k3, v3)] = Inr b' \<Longrightarrow>
   map_of b' = (map_of b)(k1 \<mapsto> Val v1, k2 \<mapsto> Val v2, k3 \<mapsto> Val v3)"
  by (auto split: sum.splits dest!: Put_Inr)

lemma put_fields_cluster_Inr:
  "put_fields b [(k1, v1), (k2, v2)] = Inr b' \<Longrightarrow>
   map_of b' = (map_of b)(k1 \<mapsto> Val v1, k2 \<mapsto> Val v2)"
  by (auto split: sum.splits dest!: Put_Inr)

lemma read_group_written:
  assumes m: "map_of G = (map_of G2)(bucketKeySize \<mapsto> Val (Itoa (sint (Size g))),
              bucketKeyInstanceType \<mapsto> Val (InstanceType g),
              bucketKeyRegion \<mapsto> Val (Region g))"
    and l: "Bucket G2 bucketKeyLabels = Some L" "keys_of L = sort (remdups (ClusterGroup.Labels g))"
    and p: "Bucket G2 bucketKeyDefinition = map_option content (Peer g)"
  shows "read_group G = Inr (canon_group g)"
proof -
  have bl: "Bucket G bucketKeyLabels = Some L"
    using l(1) by (simp add: Bucket_def m bucketKey_defs)
  have bp: "Bucket G bucketKeyDefinition = map_option content (Peer g)"
    using p by (simp add: Bucket_def m bucketKey_defs)
  have gs: "Get G bucketKeySize = Some (Itoa (sint (Size g)))"
    "Get G bucketKeyInstanceType = Some (InstanceType g)"
    "Get G bucketKeyRegion = Some (Region g)"
    by (simp_all add: Get_def m bucketKey_defs)
  have dm: "bucketKeySize \<in> dom (map_of G)" "bucketKeyInstanceType \<in> dom (map_of G)"
    "bucketKeyRegion \<in> dom (map_of G)"
    using gs by (auto dest: Get_in_dom)
  have rl: "readLabels G = Inr (sort (remdups (ClusterGroup.Labels g)))"
    by (simp add: readLabels_conv bl l(2))
  show ?thesis
  proof (cases "Peer g")
    case None
    then show ?thesis
      using bp by (simp add: read_group_def rl ForEach_def forEach_group_field dm gs
          string_of_def Atoi_Itoa canon_group_def zero_group_def)
  next
    case (Some pd)
    then show ?thesis
      using bp by (simp add: read_group_def rl ForEach_def forEach_group_field dm gs
          string_of_def Atoi_Itoa canon_group_def zero_group_def readPeerDefinition_def)
  qed
qed

lemma write_group_Inr:
  assumes "write_group D i g = Inr D'"
  shows "\<exists>G. map_of D' = (map_of D)(Itoa (int i) \<mapsto> Sub G) \<and> read_group G = Inr (canon_group g)"
proof -
  from assms obtain D1 c G1 G2 G3 where
    cb: "CreateBucket D (Itoa (int i)) = Inr (D1, c)"
    and wl: "writeLabels c (ClusterGroup.Labels g) = Inr G1"
    and wp: "(case Peer g of None \<Rightarrow> Inr G1 | Some pdef \<Rightarrow> writePeerDefinition G1 pdef) = Inr G2"
    and pf: "put_fields G2 [(bucketKeySize, Itoa (sint (Size g))),
               (bucketKeyInstanceType, InstanceType g), (bucketKeyRegion, Region g)] = Inr G3"
    and D': "D' = store_bucket D1 (Itoa (int i)) G3"
    by (auto simp: write_group_def split: sum.splits prod.splits)
  from CreateBucket_Inr [OF cb] have D1: "map_of D1 = (map_of D)(Itoa (int i) \<mapsto> Sub [])" and c: "c = []"
    by auto
  from writeLabels_Inr [OF wl] obtain L where
    G1: "map_of G1 = (map_of c)(bucketKeyLabels \<mapsto> Sub L)"
    and L: "keys_of L = sort (remdups (ClusterGroup.Labels g))"
    by blast
  have G2l: "Bucket G2 bucketKeyLabels = Some L"
    and G2p: "Bucket G2 bucketKeyDefinition = map_option content (Peer g)"
  proof -
    show "Bucket G2 bucketKeyLabels = Some L"
    proof (cases "Peer g")
      case None
      with wp have "G2 = G1" by simp
      then show ?thesis by (simp add: Bucket_def G1)
    next
      case (Some pd)
      with wp have "writePeerDefinition G1 pd = Inr G2" by simp
      from writePeerDefinition_Inr [OF this] show ?thesis
        by (simp add: Bucket_def G1 bucketKey_defs)
    qed
    show "Bucket G2 bucketKeyDefinition = map_option content (Peer g)"
    proof (cases "Peer g")
      case None
      with wp have "G2 = G1" by simp
      then show ?thesis using None by (simp add: Bucket_def G1 c bucketKey_defs)
    next
      case (Some pd)
      with wp have "writePeerDefinition G1 pd = Inr G2" by simp
      from writePeerDefinition_Inr [OF this] show ?thesis
        using Some by (simp add: Bucket_def)
    qed
  qed
  have "read_group G3 = Inr (canon_group g)"
    by (rule read_group_written [OF put_fields_group_Inr [OF pf] G2l L G2p])
  moreover have "map_of D' = (map_of D)(Itoa (int i) \<mapsto> Sub G3)"
    by (simp add: D' D1)
  ultimately show ?thesis by blast
qed

subsection \<open>Writing and reading the groups of a definition\<close>

lemma write_groups_Inr:
  "write_groups D i gs = Inr D' \<Longrightarrow>
   (\<forall>k. k \<notin> (\<lambda>j. Itoa (int j)) ` {i..<i + length gs} \<longrightarrow> map_of D' k = map_of D k)
   \<and> (\<forall>j<length gs. \<exists>G. map_of D' (Itoa (int (i + j))) = Some (Sub G)
                          \<and> read_group G = Inr (canon_group (gs ! j)))"
proof (induction gs arbitrary: D i)
  case Nil
  then show ?case by simp
next
  case (Cons g gs)
  from Cons.prems obtain D1 where wg: "write_group D i g = Inr D1"
    and rest: "write_groups D1 (Suc i) gs = Inr D'"
    by (auto split: sum.splits)
  from write_group_Inr [OF wg] obtain G where
    D1: "map_of D1 = (map_of D)(Itoa (int i) \<mapsto> Sub G)"
    and G: "read_group G = Inr (canon_group g)"
    by blast
  note IH = Cons.IH [OF rest]
  have keep: "map_of D' k = map_of D1 k" if "k \<notin> (\<lambda>j. Itoa (int j)) ` {Suc i..<Suc i + length gs}" for k
    using IH that by blast
  have first: "map_of D' (Itoa (int i)) = Some (Sub G)"
  proof -
    have "Itoa (int i) \<notin> (\<lambda>j. Itoa (int j)) ` {Suc i..<Suc i + length gs}"
      by (auto simp: Itoa_inject)
    from keep [OF this] show ?thesis by (simp add: D1)
  qed
  show ?case
  proof (intro conjI allI impI)
    fix k assume k: "k \<notin> (\<lambda>j. Itoa (int j)) ` {i..<i + length (g # gs)}"
    then have "k \<notin> (\<lambda>j. Itoa (int j)) ` {Suc i..<Suc i + length gs}" and "k \<noteq> Itoa (int i)"
      by auto
    with keep [of k] show "map_of D' k = map_of D k" by (simp add: D1)
  next
    fix j assume j: "j < length (g # gs)"
    show "\<exists>Ga. map_of D' (Itoa (int (i + j))) = Some (Sub Ga)
            \<and> read_group Ga = Inr (canon_group ((g # gs) ! j))"
    proof (cases j)
      case 0
      with first G show ?thesis by simp
    next
      case (Suc j')
      with j have "j' < length gs" by simp
      with IH obtain Ga where "map_of D' (Itoa (int (Suc i + j'))) = Some (Sub Ga)"
        "read_group Ga = Inr (canon_group (gs ! j'))" by blast
      with Suc show ?thesis by simp
    qed
  qed
qed

lemma read_groups_run:
  assumes "\<forall>j. i \<le> j \<and> j < n \<longrightarrow> (\<exists>G. Bucket D (Itoa (int j)) = Some G \<and> read_group G = Inr (f j))"
    and "Bucket D (Itoa (int n)) = None" and "i \<le> n"
  shows "read_groups D i cdef = Inr (cdef\<lparr>Groups := Groups cdef @ map f [i..<n]\<rparr>)"
  using assms
proof (induction "n - i" arbitrary: i cdef)
  case 0
  then have "i = n" by simp
  with 0 show ?case by (subst read_groups.simps) simp
next
  case (Suc d)
  then have lt: "i < n" by simp
  with Suc.prems obtain G where G: "Bucket D (Itoa (int i)) = Some G" "read_group G = Inr (f i)"
    by (metis order_refl)
  have "read_groups D (Suc i) (cdef\<lparr>Groups := Groups cdef @ [f i]\<rparr>)
        = Inr (cdef\<lparr>Groups := Groups cdef @ [f i]\<rparr>
               \<lparr>Groups := Groups (cdef\<lparr>Groups := Groups cdef @ [f i]\<rparr>) @ map f [Suc i..<n]\<rparr>)"
    using Suc.hyps(2) Suc.prems lt by (intro Suc.hyps(1)) auto
  then show ?case
    using G lt by (subst read_groups.simps) (simp add: upt_conv_Cons)
qed

lemma writeClusterDefinition_Inr:
  assumes "writeClusterDefinition b d = Inr b'"
  shows "\<exists>D. map_of b' = (map_of b)(bucketKeyDefinition \<mapsto> Sub D)
          \<and> read_groups D 0 \<lparr>Groups = []\<rparr> = Inr \<lparr>Groups = map canon_group (Groups d)\<rparr>"
proof -
  from assms obtain b1 c D where rc: "RecreateBucket b bucketKeyDefinition = Inr (b1, c)"
    and wg: "write_groups c 0 (Groups d) = Inr D"
    and b': "b' = store_bucket b1 bucketKeyDefinition D"
    by (auto simp: writeClusterDefinition_def split: sum.splits prod.splits)
  from RecreateBucket_Inr [OF rc] have b1: "map_of b1 = (map_of b)(bucketKeyDefinition \<mapsto> Sub [])"
    and c: "c = []" by auto
  note W = write_groups_Inr [OF wg]
  let ?n = "length (Groups d)"
  have hit: "\<forall>j. 0 \<le> j \<and> j < ?n \<longrightarrow>
      (\<exists>G. Bucket D (Itoa (int j)) = Some G \<and> read_group G = Inr (canon_group (Groups d ! j)))"
    using W by (auto simp: Bucket_def)
  have "Itoa (int ?n) \<notin> (\<lambda>j. Itoa (int j)) ` {0..<0 + ?n}"
    by (auto simp: Itoa_inject)
  with W have "map_of D (Itoa (int ?n)) = map_of c (Itoa (int ?n))" by blast
  then have miss: "Bucket D (Itoa (int ?n)) = None"
    by (simp add: Bucket_def c)
  have "read_groups D 0 \<lparr>Groups = []\<rparr>
        = Inr (\<lparr>Groups = []\<rparr>\<lparr>Groups := Groups \<lparr>Groups = []\<rparr> @ map (\<lambda>j. canon_group (Groups d ! j)) [0..<?n]\<rparr>)"
    by (rule read_groups_run [OF hit miss]) simp
  moreover have "map (\<lambda>j. canon_group (Groups d ! j)) [0..<?n] = map canon_group (Groups d)"
    by (rule nth_equalityI) simp_all
  ultimately have "read_groups D 0 \<lparr>Groups = []\<rparr> = Inr \<lparr>Groups = map canon_group (Groups d)\<rparr>"
    by simp
  moreover have "map_of b' = (map_of b)(bucketKeyDefinition \<mapsto> Sub D)"
    by (simp add: b' b1)
  ultimately show ?thesis by blast
qed

subsection \<open>Writing and reading a cluster\<close>

lemma WriteTimestamps_Inr:
  "WriteTimestamps b c u = Inr b' \<Longrightarrow>
   map_of b' = (map_of b)(bucketKeyCreatedAt \<mapsto> Val (Itoa c), bucketKeyUpdatedAt \<mapsto> Val (Itoa u))"
  by (auto simp: WriteTimestamps_def split: sum.splits dest!: Put_Inr)

lemma writeCluster_Inr:
  assumes "writeCluster b0 c = Inr b"
  shows "\<exists>D L. map_of b = (map_of b0)
            (bucketKeyCreatedAt \<mapsto> Val (Itoa (CreatedAt c)),
             bucketKeyUpdatedAt \<mapsto> Val (Itoa (UpdatedAt c)),
             bucketKeyDefinition \<mapsto> Sub D,
             bucketKeyLabels \<mapsto> Sub L,
             bucketKeyID \<mapsto> Val (ID c),
             bucketKeyStatus \<mapsto> Val (Status c))
          \<and> read_groups D 0 \<lparr>Groups = []\<rparr> = Inr \<lparr>Groups = map canon_group (Groups (Definition c))\<rparr>
          \<and> keys_of L = sort (remdups (Cluster.Labels c))"
proof -
  from assms obtain b1 b2 b3 where
    wt: "WriteTimestamps b0 (CreatedAt c) (UpdatedAt c) = Inr b1"
    and wd: "writeClusterDefinition b1 (Definition c) = Inr b2"
    and wl: "writeLabels b2 (Cluster.Labels c) = Inr b3"
    and pf: "put_fields b3 [(bucketKeyID, ID c), (bucketKeyStatus, Status c)] = Inr b"
    by (auto simp: writeCluster_def split: sum.splits)
  from writeClusterDefinition_Inr [OF wd] obtain D where
    D: "map_of b2 = (map_of b1)(bucketKeyDefinition \<mapsto> Sub D)"
      "read_groups D 0 \<lparr>Groups = []\<rparr> = Inr \<lparr>Groups = map canon_group (Groups (Definition c))\<rparr>"
    by blast
  from writeLabels_Inr [OF wl] obtain L where
    L: "map_of b3 = (map_of b2)(bucketKeyLabels \<mapsto> Sub L)"
      "keys_of L = sort (remdups (Cluster.Labels c))"
    by blast
  have "map_of b = (map_of b0)
            (bucketKeyCreatedAt \<mapsto> Val (Itoa (CreatedAt c)),
             bucketKeyUpdatedAt \<mapsto> Val (Itoa (UpdatedAt c)),
             bucketKeyDefinition \<mapsto> Sub D,
             bucketKeyLabels \<mapsto> Sub L,
             bucketKeyID \<mapsto> Val (ID c),
             bucketKeyStatus \<mapsto> Val (Status c))"
    by (simp add: put_fields_cluster_Inr [OF pf] L(1) D(1) WriteTimestamps_Inr [OF wt])
  with D(2) L(2) show ?thesis by blast
qed

lemma readCluster_writeCluster:
  assumes "writeCluster b0 c = Inr b"
  shows "readCluster b c0 = Inr (canon_cluster c)"
proof -
  from writeCluster_Inr [OF assms] obtain D L where
    m: "map_of b = (map_of b0)
            (bucketKeyCreatedAt \<mapsto> Val (Itoa (CreatedAt c)),
             bucketKeyUpdatedAt \<mapsto> Val (Itoa (UpdatedAt c)),
             bucketKeyDefinition \<mapsto> Sub D,
             bucketKeyLabels \<mapsto> Sub L,
             bucketKeyID \<mapsto> Val (ID c),
             bucketKeyStatus \<mapsto> Val (Status c))"
    and D: "read_groups D 0 \<lparr>Groups = []\<rparr> = Inr \<lparr>Groups = map canon_group (Groups (Definition c))\<rparr>"
    and L: "keys_of L = sort (remdups (Cluster.Labels c))"
    by blast
  have g: "Get b bucketKeyCreatedAt = Some (Itoa (CreatedAt c))"
    "Get b bucketKeyUpdatedAt = Some (Itoa (UpdatedAt c))"
    "Get b bucketKeyID = Some (ID c)" "Get b bucketKeyStatus = Some (Status c)"
    by (simp_all add: Get_def m bucketKey_defs)
  have bk: "Bucket b bucketKeyDefinition = Some D" "Bucket b bucketKeyLabels = Some L"
    by (simp_all add: Bucket_def m bucketKey_defs)
  have rt: "ReadTimestamps b t1 t2 = Inr (CreatedAt c, UpdatedAt c)" for t1 t2
    by (simp add: ReadTimestamps_def read_time_def g parse_int_Itoa)
  have rd: "readClusterDefinition b = Inr \<lparr>Groups = map canon_group (Groups (Definition c))\<rparr>"
    by (simp add: readClusterDefinition_def bk D)
  have rl: "readLabels b = Inr (sort (remdups (Cluster.Labels c)))"
    by (simp add: readLabels_conv bk L)
  show ?thesis
    by (simp add: readCluster_def rt rd rl ForEach_cluster_field g canon_cluster_def)
qed

lemma mset_sort_remdups_distinct: "distinct xs \<Longrightarrow> mset (sort (remdups xs)) = mset xs"
  by (simp add: distinct_remdups_id)

text \<open>
  C1: a cluster written by \<open>writeCluster\<close> into a fresh container and read back by
  \<open>readCluster\<close> is the original one: identifier, status and both timestamps are equal,
  the groups come back in the same order with equal size, instance type, region and
  peer, and every label set (of the cluster and of each group) holds the same labels,
  possibly in another order. A valid cluster has no label twice in a label set. The
  result does not depend on the cluster value \<open>c0\<close> that \<open>readCluster\<close> fills in. The
  codec of a peer definition is outside cluster.go: a peer is the content of its
  container here, so what is shown for it is that a present peer stays present with its
  container untouched and an absent peer stays absent. Go's distinction between a nil
  and an empty slice is not part of the model.
\<close>

theorem C1_roundtrip:
  assumes "writeCluster [] c = Inr b"
    and "distinct (Cluster.Labels c)"
    and "\<forall>g \<in> set (Groups (Definition c)). distinct (ClusterGroup.Labels g)"
  shows "\<exists>c'. readCluster b c0 = Inr c'
      \<and> ID c' = ID c \<and> Status c' = Status c
      \<and> CreatedAt c' = CreatedAt c \<and> UpdatedAt c' = UpdatedAt c
      \<and> mset (Cluster.Labels c') = mset (Cluster.Labels c)
      \<and> map Size (Groups (Definition c')) = map Size (Groups (Definition c))
      \<and> map InstanceType (Groups (Definition c')) = map InstanceType (Groups (Definition c))
      \<and> map Region (Groups (Definition c')) = map Region (Groups (Definition c))
      \<and> map Peer (Groups (Definition c')) = map Peer (Groups (Definition c))
      \<and> map (\<lambda>g. mset (ClusterGroup.Labels g)) (Groups (Definition c'))
          = map (\<lambda>g. mset (ClusterGroup.Labels g)) (Groups (Definition c))"
proof -
  have r: "readCluster b c0 = Inr (canon_cluster c)"
    by (rule readCluster_writeCluster [OF assms(1)])
  have "map (\<lambda>g. mset (ClusterGroup.Labels g)) (map canon_group (Groups (Definition c)))
        = map (\<lambda>g. mset (ClusterGroup.Labels g)) (Groups (Definition c))"
    using assms(3) by (simp add: canon_group_def distinct_remdups_id)
  then show ?thesis
    using assms(2)
    by (simp add: r canon_cluster_def canon_group_def comp_def distinct_remdups_id)
qed

theorem C1_roundtrip_witness:
  "\<exists>b c'. writeCluster [] demo_cluster = Inr b
     \<and> readCluster b zero_cluster = Inr c'
     \<and> ID c' = ''c1'' \<and> Status c' = ''created'' \<and> CreatedAt c' = 5 \<and> UpdatedAt c' = 7
     \<and> mset (Cluster.Labels c') = mset [''prod'', ''dev'']
     \<and> map Size (Groups (Definition c')) = [3, - 1]
     \<and> map Peer (Groups (Definition c')) = [None, Some (PeerDefinition [(''ref'', Val ''x'')])]
     \<and> map (\<lambda>g. mset (ClusterGroup.Labels g)) (Groups (Definition c')) = [mset [''b'', ''a''], {#}]"
proof -
  have w: "writeCluster [] demo_cluster = Inr demo_bucket"
    unfolding demo_cluster_def demo_bucket_def by code_simp
  have d1: "distinct (Cluster.Labels demo_cluster)"
    by (simp add: demo_cluster_def)
  have d2: "\<forall>g \<in> set (Groups (Definition demo_cluster)). distinct (ClusterGroup.Labels g)"
    by (simp add: demo_cluster_def)
  from C1_roundtrip [OF w d1 d2, of zero_cluster] show ?thesis
    using w by (auto simp: demo_cluster_def)
qed

subsection \<open>Create, Update and Delete\<close>

lemma createClustersBucket_Inr:
  "createClustersBucket tx = Inr (tx1, bkt) \<Longrightarrow>
   map_of tx1 = (map_of tx)(bucketKeyClusters \<mapsto> Sub bkt)
   \<and> bkt = (case getClustersBucket tx of None \<Rightarrow> [] | Some b \<Rightarrow> b)"
  by (auto simp: createClustersBucket_def getClustersBucket_def Bucket_def fun_eq_iff
           split: option.splits node.splits)

lemma getClustersBucket_store [simp]:
  "getClustersBucket (store_bucket tx bucketKeyClusters bkt) = Some bkt"
  by (simp add: getClustersBucket_def Bucket_def)

lemma Bucket_store_bucket [simp]:
  "Bucket (store_bucket b k c) k' = (if k' = k then Some c else Bucket b k')"
  by (simp add: Bucket_def)

lemma CreateCluster_Inr:
  assumes "CreateCluster vid now m c = (Inr r, m')"
  shows "\<exists>tx1 bkt1 cbkt.
           vid (ID c) = Inr ()
           \<and> ID c \<noteq> []
           \<and> r = c\<lparr>CreatedAt := now, UpdatedAt := now\<rparr>
           \<and> writeCluster [] r = Inr cbkt
           \<and> m' = store_bucket tx1 bucketKeyClusters (store_bucket bkt1 (ID c) cbkt)"
proof -
  from assms have v: "vid (ID c) = Inr ()"
    by (auto simp: CreateCluster_def Validate_def split: sum.splits)
  from assms v obtain tx1 bkt bkt1 c0 cbkt where
    cc: "createClustersBucket m = Inr (tx1, bkt)"
    and cb: "CreateBucket bkt (ID c) = Inr (bkt1, c0)"
    and wc: "writeCluster c0 (c\<lparr>CreatedAt := now, UpdatedAt := now\<rparr>) = Inr cbkt"
    and r: "r = c\<lparr>CreatedAt := now, UpdatedAt := now\<rparr>"
    and m': "m' = store_bucket tx1 bucketKeyClusters (store_bucket bkt1 (ID c) cbkt)"
    by (auto simp: CreateCluster_def Validate_def Update_def split: sum.splits prod.splits if_splits)
  from CreateBucket_Inr [OF cb] have "c0 = []" by simp
  moreover from cb have "ID c \<noteq> []"
    by (auto simp: CreateBucket_def split: if_splits)
  ultimately show ?thesis using v wc r m' by blast
qed

lemma CreateCluster_timestamps_ignored:
  "CreateCluster vid now m (c\<lparr>CreatedAt := t1, UpdatedAt := t2\<rparr>) = CreateCluster vid now m c"
proof -
  have "(c\<lparr>CreatedAt := t1, UpdatedAt := t2\<rparr>)\<lparr>CreatedAt := now, UpdatedAt := now\<rparr>
        = c\<lparr>CreatedAt := now, UpdatedAt := now\<rparr>"
    by simp
  then show ?thesis
    by (simp add: CreateCluster_def Validate_def cong: sum.case_cong prod.case_cong)
qed

text \<open>
  C9: a successful \<open>CreateCluster\<close> returns the entity with both timestamps set to the
  same time \<open>now\<close> read inside the operation and persists it: \<open>GetCluster\<close> of the
  identifier reads back that very entity (every label set sorted), with the same two
  timestamps; and whatever timestamps the caller supplied (\<open>t1\<close>, \<open>t2\<close>) make no
  difference to the result or to the store.
\<close>

theorem C9_create_timestamps:
  assumes "CreateCluster vid now m c = (Inr r, m')"
  shows "r = c\<lparr>CreatedAt := now, UpdatedAt := now\<rparr>
     \<and> CreatedAt r = now \<and> UpdatedAt r = now
     \<and> GetCluster m' (ID c) = Inr (canon_cluster r)
     \<and> (\<exists>c'. GetCluster m' (ID c) = Inr c' \<and> CreatedAt c' = now \<and> UpdatedAt c' = now
           \<and> ID c' = ID c \<and> Status c' = Status c
           \<and> mset (Cluster.Labels c') = mset (remdups (Cluster.Labels c))
           \<and> map Size (Groups (Definition c')) = map Size (Groups (Definition c))
           \<and> map InstanceType (Groups (Definition c'))
               = map InstanceType (Groups (Definition c))
           \<and> map Region (Groups (Definition c')) = map Region (Groups (Definition c))
           \<and> map Peer (Groups (Definition c')) = map Peer (Groups (Definition c)))
     \<and> CreateCluster vid now m (c\<lparr>CreatedAt := t1, UpdatedAt := t2\<rparr>) = (Inr r, m')"
proof -
  from CreateCluster_Inr [OF assms] obtain tx1 bkt1 cbkt where
    r: "r = c\<lparr>CreatedAt := now, UpdatedAt := now\<rparr>"
    and w: "writeCluster [] r = Inr cbkt"
    and m': "m' = store_bucket tx1 bucketKeyClusters (store_bucket bkt1 (ID c) cbkt)"
    by blast
  have "GetCluster m' (ID c) = Inr (canon_cluster r)"
    by (simp add: GetCluster_def View_def m' readCluster_writeCluster [OF w])
  moreover have "CreatedAt (canon_cluster r) = now" "UpdatedAt (canon_cluster r) = now"
    "ID (canon_cluster r) = ID c" "Status (canon_cluster r) = Status c"
    "mset (Cluster.Labels (canon_cluster r)) = mset (remdups (Cluster.Labels c))"
    "map Size (Groups (Definition (canon_cluster r))) = map Size (Groups (Definition c))"
    "map InstanceType (Groups (Definition (canon_cluster r)))
       = map InstanceType (Groups (Definition c))"
    "map Region (Groups (Definition (canon_cluster r))) = map Region (Groups (Definition c))"
    "map Peer (Groups (Definition (canon_cluster r))) = map Peer (Groups (Definition c))"
    by (simp_all add: canon_cluster_def canon_group_def comp_def r)
  ultimately show ?thesis
    using r assms by (simp add: CreateCluster_timestamps_ignored)
qed

text \<open>
  C2: once \<open>CreateCluster\<close> has succeeded for an identifier, a second \<open>CreateCluster\<close>
  with the same identifier returns AlreadyExists and leaves the store, hence the first
  entity's persisted state, exactly as it was.
\<close>

theorem C2_create_twice:
  assumes "CreateCluster vid t1 m c = (Inr r, m1)" and "ID c' = ID c"
  shows "CreateCluster vid t2 m1 c' = (Inl ErrAlreadyExists, m1)"
proof -
  from CreateCluster_Inr [OF assms(1)] obtain tx1 bkt1 cbkt where
    v: "vid (ID c) = Inr ()" and ne: "ID c \<noteq> []"
    and m1: "m1 = store_bucket tx1 bucketKeyClusters (store_bucket bkt1 (ID c) cbkt)"
    by blast
  have cc: "createClustersBucket m1 = Inr (m1, store_bucket bkt1 (ID c) cbkt)"
    by (simp add: createClustersBucket_def m1)
  have cb: "CreateBucket (store_bucket bkt1 (ID c) cbkt) (ID c) = Inl ErrBucketExists"
    using ne by (simp add: CreateBucket_def)
  show ?thesis
    by (simp add: CreateCluster_def Validate_def assms(2) v Update_def cc cb)
qed

lemma UpdateCluster_Inr:
  assumes "UpdateCluster now m c = (Inr r, m')"
  shows "\<exists>tx1 bkt cbkt cbkt'.
           ID c \<noteq> []
           \<and> r = c\<lparr>UpdatedAt := now\<rparr>
           \<and> writeCluster cbkt r = Inr cbkt'
           \<and> m' = store_bucket tx1 bucketKeyClusters (store_bucket bkt (ID c) cbkt')"
  using assms
  by (auto simp: UpdateCluster_def Update_def split: sum.splits prod.splits if_splits option.splits)

text \<open>
  C4, amended: a successful \<open>UpdateCluster\<close> persists the identifier passed in, which is
  the key of the entity, the created-timestamp passed in by the caller, and the current
  time as updated-timestamp. So the identifier is unchanged for an entity stored under
  its own identifier, the created-timestamp is unchanged when the caller passes the
  committed one (as after a Get), and the updated-timestamp is not earlier than the
  previous one when the clock has not gone back.
\<close>

theorem C4_update_persists:
  assumes "UpdateCluster now m c = (Inr r, m')" and "GetCluster m (ID c) = Inr p"
  shows "r = c\<lparr>UpdatedAt := now\<rparr>
     \<and> (\<exists>c'. GetCluster m' (ID c) = Inr c'
           \<and> ID c' = ID c \<and> CreatedAt c' = CreatedAt c \<and> UpdatedAt c' = now
           \<and> (ID p = ID c \<longrightarrow> ID c' = ID p)
           \<and> (CreatedAt c = CreatedAt p \<longrightarrow> CreatedAt c' = CreatedAt p)
           \<and> (UpdatedAt p \<le> now \<longrightarrow> UpdatedAt p \<le> UpdatedAt c'))"
proof -
  from UpdateCluster_Inr [OF assms(1)] obtain tx1 bkt cbkt cbkt' where
    r: "r = c\<lparr>UpdatedAt := now\<rparr>"
    and w: "writeCluster cbkt r = Inr cbkt'"
    and m': "m' = store_bucket tx1 bucketKeyClusters (store_bucket bkt (ID c) cbkt')"
    by blast
  have "GetCluster m' (ID c) = Inr (canon_cluster r)"
    by (simp add: GetCluster_def View_def m' readCluster_writeCluster [OF w])
  then show ?thesis
    by (simp add: canon_cluster_def r)
qed

text \<open>
  C8, amended: when the clusters collection exists and the entity's container is absent,
  \<open>DeleteCluster\<close> returns an error and leaves the store as it was. The error is
  NotFound, with two exceptions in which it is the store's \<open>ErrIncompatibleValue\<close>: the
  empty identifier on a collection without entries, and an identifier under which the
  collection holds a flat value. \<open>DeleteCluster\<close> returns success without changing the
  store when the collection itself is absent, and after any successful \<open>DeleteCluster\<close>
  a \<open>GetCluster\<close> of the same identifier returns NotFound.
\<close>

theorem C8_delete:
  "(getClustersBucket m1 = Some bkt \<and> Bucket bkt i1 = None
      \<longrightarrow> DeleteCluster m1 i1
           = (Inl (if (i1 = [] \<and> bkt = []) \<or> Get bkt i1 \<noteq> None
                   then ErrIncompatibleValue else ErrNotFound), m1))
   \<and> (getClustersBucket m2 = None \<longrightarrow> DeleteCluster m2 i2 = (Inr (), m2))
   \<and> (DeleteCluster m3 i3 = (Inr (), m') \<longrightarrow> GetCluster m' i3 = Inl ErrNotFound)"
proof (intro conjI impI)
  assume h: "getClustersBucket m1 = Some bkt \<and> Bucket bkt i1 = None"
  show "DeleteCluster m1 i1
           = (Inl (if (i1 = [] \<and> bkt = []) \<or> Get bkt i1 \<noteq> None
                   then ErrIncompatibleValue else ErrNotFound), m1)"
  proof (cases "map_of bkt i1")
    case None
    with h show ?thesis
      by (simp add: DeleteCluster_def Update_def DeleteBucket_def Get_def)
  next
    case (Some n)
    with h obtain v where "n = Val v"
      by (cases n) (auto simp: Bucket_def)
    with Some h show ?thesis
      by (simp add: DeleteCluster_def Update_def DeleteBucket_def Get_def)
  qed
next
  assume "getClustersBucket m2 = None"
  then show "DeleteCluster m2 i2 = (Inr (), m2)"
    by (simp add: DeleteCluster_def Update_def)
next
  assume d: "DeleteCluster m3 i3 = (Inr (), m')"
  show "GetCluster m' i3 = Inl ErrNotFound"
  proof (cases "getClustersBucket m3")
    case None
    with d have "m' = m3" by (simp add: DeleteCluster_def Update_def)
    with None show ?thesis by (simp add: GetCluster_def View_def)
  next
    case (Some bkt)
    with d obtain bkt' where db: "DeleteBucket bkt i3 = Inr bkt'"
      and m': "m' = store_bucket m3 bucketKeyClusters bkt'"
      by (auto simp: DeleteCluster_def Update_def split: sum.splits if_splits)
    from DeleteBucket_Inr [OF db] have "Bucket bkt' i3 = None"
      by (simp add: Bucket_def)
    then show ?thesis by (simp add: GetCluster_def View_def m')
  qed
qed

subsection \<open>Decoding stored data\<close>

lemma readCluster_ID:
  "readCluster bkt c = Inr c' \<Longrightarrow>
   ID c' = (case Get bkt bucketKeyID of None \<Rightarrow> ID c | Some v \<Rightarrow> v)"
  by (auto simp: readCluster_def ForEach_cluster_field split: sum.splits prod.splits option.splits)

lemma forEach_list_entry:
  "forEach_keys ks bkt (list_entry bkt) acc = Inr cs \<Longrightarrow>
   \<exists>new. cs = acc @ new \<and> length new = length ks
     \<and> (\<forall>j<length ks. \<forall>cb w. Bucket bkt (ks ! j) = Some cb \<and> Get cb bucketKeyID = Some w
            \<longrightarrow> ID (new ! j) = w)"
proof (induction ks arbitrary: acc)
  case Nil
  then show ?case by simp
next
  case (Cons k ks)
  from Cons.prems obtain acc1 where step: "list_entry bkt k (Get bkt k) acc = Inr acc1"
    and rest1: "forEach_keys ks bkt (list_entry bkt) acc1 = Inr cs"
    by (auto split: sum.splits)
  from step obtain cb c where cb: "Bucket bkt k = Some cb"
    and rc: "readCluster cb (zero_cluster\<lparr>ID := k\<rparr>) = Inr c"
    and acc1: "acc1 = acc @ [c]"
    by (auto simp: list_entry_def split: sum.splits option.splits)
  from rest1 acc1 have rest: "forEach_keys ks bkt (list_entry bkt) (acc @ [c]) = Inr cs"
    by simp
  from Cons.IH [OF rest] obtain new where new: "cs = (acc @ [c]) @ new" "length new = length ks"
    "\<forall>j<length ks. \<forall>cb w. Bucket bkt (ks ! j) = Some cb \<and> Get cb bucketKeyID = Some w
            \<longrightarrow> ID (new ! j) = w"
    by blast
  have "\<forall>j<length (k # ks). \<forall>cb w. Bucket bkt ((k # ks) ! j) = Some cb \<and> Get cb bucketKeyID = Some w
            \<longrightarrow> ID ((c # new) ! j) = w"
  proof (intro allI impI)
    fix j cb' w
    assume j: "j < length (k # ks)"
      and h: "Bucket bkt ((k # ks) ! j) = Some cb' \<and> Get cb' bucketKeyID = Some w"
    show "ID ((c # new) ! j) = w"
    proof (cases j)
      case 0
      with h cb have "cb' = cb" "Get cb bucketKeyID = Some w" by auto
      with readCluster_ID [OF rc] 0 show ?thesis by simp
    next
      case (Suc j')
      with j h new(3) show ?thesis by auto
    qed
  qed
  with new(1,2) show ?case
    by (intro exI [of _ "c # new"]) simp
qed

text \<open>
  C10: when the entity container holds a flat field "id", the cluster returned by
  \<open>GetCluster\<close>, and each cluster returned by \<open>ListClusters\<close>, has that field's value as
  its \<open>ID\<close>, whatever the lookup argument or the container key was; and \<open>writeCluster\<close>
  always writes the cluster's identifier as that field.
\<close>

theorem C10_id_from_store:
  "(getClustersBucket m = Some bkt \<and> Bucket bkt i = Some cbkt
      \<and> Get cbkt bucketKeyID = Some v \<and> GetCluster m i = Inr c \<longrightarrow> ID c = v)
   \<and> (getClustersBucket m2 = Some bkt2 \<and> ListClusters m2 = Inr cs \<longrightarrow>
        length cs = length (keys_of bkt2)
        \<and> (\<forall>j<length cs. \<forall>cb w.
              Bucket bkt2 (keys_of bkt2 ! j) = Some cb \<and> Get cb bucketKeyID = Some w
              \<longrightarrow> ID (cs ! j) = w))
   \<and> (writeCluster b0 c0 = Inr b \<longrightarrow> Get b bucketKeyID = Some (ID c0))"
proof (intro conjI impI)
  assume "getClustersBucket m = Some bkt \<and> Bucket bkt i = Some cbkt
      \<and> Get cbkt bucketKeyID = Some v \<and> GetCluster m i = Inr c"
  then have "readCluster cbkt (zero_cluster\<lparr>ID := i\<rparr>) = Inr c" "Get cbkt bucketKeyID = Some v"
    by (auto simp: GetCluster_def View_def)
  from readCluster_ID [OF this(1)] this(2) show "ID c = v" by simp
next
  assume h: "getClustersBucket m2 = Some bkt2 \<and> ListClusters m2 = Inr cs"
  then have "forEach_keys (keys_of bkt2) bkt2 (list_entry bkt2) [] = Inr cs"
    by (auto simp: ListClusters_def View_def ForEach_def)
  from forEach_list_entry [OF this]
  have "length cs = length (keys_of bkt2)"
    and "\<forall>j<length (keys_of bkt2). \<forall>cb w.
              Bucket bkt2 (keys_of bkt2 ! j) = Some cb \<and> Get cb bucketKeyID = Some w
              \<longrightarrow> ID (cs ! j) = w"
    by auto
  then show "length cs = length (keys_of bkt2)"
    and "\<forall>j<length cs. \<forall>cb w.
              Bucket bkt2 (keys_of bkt2 ! j) = Some cb \<and> Get cb bucketKeyID = Some w
              \<longrightarrow> ID (cs ! j) = w"
    by simp_all
next
  assume "writeCluster b0 c0 = Inr b"
  from writeCluster_Inr [OF this] show "Get b bucketKeyID = Some (ID c0)"
    by (auto simp: Get_def bucketKey_defs)
qed

lemma read_group_Peer_None:
  assumes "Bucket gbkt bucketKeyDefinition = None" and "read_group gbkt = Inr g"
  shows "Peer g = None"
  using assms
  by (auto simp: read_group_def readLabels_conv ForEach_def forEach_group_field zero_group_def
           split: sum.splits if_splits option.splits)

lemma read_group_no_peer:
  assumes "Bucket gbkt bucketKeyDefinition = None"
    and "Get gbkt bucketKeySize = Some text" and "Atoi text = Inr w"
  shows "\<exists>g. read_group gbkt = Inr g \<and> Peer g = None \<and> Size g = w"
proof -
  have "bucketKeySize \<in> dom (map_of gbkt)"
    using assms(2) by (rule Get_in_dom)
  then show ?thesis
    using assms
    by (simp add: read_group_def readLabels_conv ForEach_def forEach_group_field
        string_of_def zero_group_def)
qed

text \<open>
  C3: a cluster container without a "definition" child decodes to the empty definition
  without error; the groups decoded are those under the keys \<open>Itoa 0\<close>, \<open>Itoa 1\<close>, ... up
  to the first key that is missing, whatever is stored under later keys; and a group
  container without a nested "definition" child decodes to a group with no peer: every
  group decoded from it has none, and with a size field that parses the decoding
  succeeds.
\<close>

theorem C3_decode_definition:
  "(Bucket bkt bucketKeyDefinition = None \<longrightarrow> readClusterDefinition bkt = Inr \<lparr>Groups = []\<rparr>)
   \<and> (Bucket bkt2 bucketKeyDefinition = Some dbkt
        \<and> (\<forall>j<length gs. \<exists>gb. Bucket dbkt (Itoa (int j)) = Some gb \<and> read_group gb = Inr (gs ! j))
        \<and> Bucket dbkt (Itoa (int (length gs))) = None
       \<longrightarrow> readClusterDefinition bkt2 = Inr \<lparr>Groups = gs\<rparr>)
   \<and> (Bucket gbkt bucketKeyDefinition = None \<and> read_group gbkt = Inr g \<longrightarrow> Peer g = None)
   \<and> (Bucket gbkt2 bucketKeyDefinition = None \<and> Get gbkt2 bucketKeySize = Some text
        \<and> Atoi text = Inr w
       \<longrightarrow> (\<exists>g2. read_group gbkt2 = Inr g2 \<and> Peer g2 = None \<and> Size g2 = w))"
proof (intro conjI impI)
  assume "Bucket bkt bucketKeyDefinition = None"
  then show "readClusterDefinition bkt = Inr \<lparr>Groups = []\<rparr>"
    by (simp add: readClusterDefinition_def)
next
  assume h: "Bucket bkt2 bucketKeyDefinition = Some dbkt
        \<and> (\<forall>j<length gs. \<exists>gb. Bucket dbkt (Itoa (int j)) = Some gb \<and> read_group gb = Inr (gs ! j))
        \<and> Bucket dbkt (Itoa (int (length gs))) = None"
  then have hit: "\<forall>j. 0 \<le> j \<and> j < length gs \<longrightarrow>
      (\<exists>G. Bucket dbkt (Itoa (int j)) = Some G \<and> read_group G = Inr (gs ! j))"
    and miss: "Bucket dbkt (Itoa (int (length gs))) = None"
    by auto
  have "read_groups dbkt 0 \<lparr>Groups = []\<rparr>
        = Inr (\<lparr>Groups = []\<rparr>\<lparr>Groups := Groups \<lparr>Groups = []\<rparr> @ map (\<lambda>j. gs ! j) [0..<length gs]\<rparr>)"
    by (rule read_groups_run [OF hit miss]) simp
  then show "readClusterDefinition bkt2 = Inr \<lparr>Groups = gs\<rparr>"
    using h by (simp add: readClusterDefinition_def map_nth)
next
  assume "Bucket gbkt bucketKeyDefinition = None \<and> read_group gbkt = Inr g"
  then show "Peer g = None"
    using read_group_Peer_None by blast
next
  assume "Bucket gbkt2 bucketKeyDefinition = None \<and> Get gbkt2 bucketKeySize = Some text
        \<and> Atoi text = Inr w"
  then show "\<exists>g2. read_group gbkt2 = Inr g2 \<and> Peer g2 = None \<and> Size g2 = w"
    using read_group_no_peer by blast
qed

lemma digit_val_None: "digit_val c = None \<longleftrightarrow> \<not> is_digit c"
  by (simp add: digit_val_def is_digit_def less_eq_char_def)

lemma parse_digits_None: "parse_digits cs n = None \<longleftrightarrow> \<not> list_all is_digit cs"
proof (induction cs arbitrary: n)
  case Nil
  then show ?case by simp
next
  case (Cons a cs)
  show ?case
  proof (cases "digit_val a")
    case None
    then show ?thesis using digit_val_None [of a] by simp
  next
    case (Some d)
    then have "is_digit a" using digit_val_None [of a] by auto
    with Some Cons.IH show ?thesis by simp
  qed
qed

lemma parse_int_None: "parse_int s = None \<longleftrightarrow> \<not> decimal_text s"
proof (cases s)
  case Nil
  then show ?thesis by (simp add: parse_int_def decimal_text_def)
next
  case (Cons a cs)
  then show ?thesis
    by (simp add: parse_int_def decimal_text_def parse_digits_None del: parse_digits.simps)
qed

lemma Atoi_not_decimal: "\<not> decimal_text s \<Longrightarrow> Atoi s = Inl NumError"
  by (simp add: Atoi_def parse_int_None [symmetric])

lemma read_group_error: "read_group g = Inl e \<Longrightarrow> e = NumError"
  by (auto simp: read_group_def readLabels_conv ForEach_def forEach_group_field
        readPeerDefinition_def
        split: sum.splits if_splits option.splits dest: Atoi_error)

lemma read_group_bad_size:
  assumes "Get g bucketKeySize = Some text" and "\<not> decimal_text text"
  shows "read_group g = Inl NumError"
proof -
  have "bucketKeySize \<in> dom (map_of g)"
    using assms(1) by (rule Get_in_dom)
  then show ?thesis
    using assms Atoi_not_decimal [OF assms(2)]
    by (auto simp: read_group_def readLabels_conv ForEach_def forEach_group_field
        readPeerDefinition_def string_of_def split: sum.splits option.splits)
qed

lemma read_groups_fail:
  assumes "\<forall>j. i0 \<le> j \<and> j \<le> i \<longrightarrow> Bucket D (Itoa (int j)) \<noteq> None"
    and "Bucket D (Itoa (int i)) = Some g" and "read_group g = Inl NumError" and "i0 \<le> i"
  shows "read_groups D i0 cdef = Inl NumError"
  using assms
proof (induction "i - i0" arbitrary: i0 cdef)
  case 0
  then have "i0 = i" by simp
  with 0 show ?case by (subst read_groups.simps) simp
next
  case (Suc d)
  then have lt: "i0 < i" by simp
  with Suc.prems(1) obtain g0 where g0: "Bucket D (Itoa (int i0)) = Some g0"
    by (metis order_refl less_imp_le option.exhaust)
  show ?case
  proof (cases "read_group g0")
    case (Inl e)
    with read_group_error [OF Inl] g0 show ?thesis
      by (subst read_groups.simps) simp
  next
    case (Inr grp)
    have "read_groups D (Suc i0) (cdef\<lparr>Groups := Groups cdef @ [grp]\<rparr>) = Inl NumError"
      using Suc.hyps(2) Suc.prems lt by (intro Suc.hyps(1)) auto
    with Inr g0 show ?thesis
      by (subst read_groups.simps) simp
  qed
qed

lemma ReadTimestamps_error: "ReadTimestamps b c u = Inl e \<Longrightarrow> e = ErrTimeFormat"
  by (auto simp: ReadTimestamps_def read_time_def split: sum.splits option.splits)

text \<open>
  C6: if a group that the decoder reaches (all positions up to it are present) has a size
  field whose text is not a valid decimal integer, \<open>readCluster\<close> returns an error, and
  that error is a FormatError; no cluster value is returned. \<open>GetCluster\<close> of an entity
  stored in such a container fails in the same way.
\<close>

theorem C6_bad_size:
  assumes "Bucket bkt bucketKeyDefinition = Some dbkt"
    and "\<forall>j\<le>i. Bucket dbkt (Itoa (int j)) \<noteq> None"
    and "Bucket dbkt (Itoa (int i)) = Some gbkt"
    and "Get gbkt bucketKeySize = Some text"
    and "\<not> decimal_text text"
  shows "(\<exists>e. readCluster bkt c = Inl e \<and> is_FormatError e)
      \<and> (getClustersBucket m = Some cb \<and> Bucket cb k = Some bkt
           \<longrightarrow> (\<exists>e. GetCluster m k = Inl e \<and> is_FormatError e))"
proof -
  have "read_group gbkt = Inl NumError"
    by (rule read_group_bad_size [OF assms(4,5)])
  with assms(2,3) have "read_groups dbkt 0 \<lparr>Groups = []\<rparr> = Inl NumError"
    by (intro read_groups_fail [where i = i and g = gbkt]) auto
  then have d: "readClusterDefinition bkt = Inl NumError"
    by (simp add: readClusterDefinition_def assms(1))
  have r: "\<exists>e. readCluster bkt c' = Inl e \<and> is_FormatError e" for c'
  proof (cases "ReadTimestamps bkt (CreatedAt c') (UpdatedAt c')")
    case (Inl e)
    with ReadTimestamps_error [OF Inl] show ?thesis
      by (simp add: readCluster_def is_FormatError_def)
  next
    case (Inr p)
    with d show ?thesis
      by (simp add: readCluster_def is_FormatError_def split: prod.splits)
  qed
  show ?thesis
  proof (intro conjI impI)
    show "\<exists>e. readCluster bkt c = Inl e \<and> is_FormatError e"
      by (rule r)
  next
    assume "getClustersBucket m = Some cb \<and> Bucket cb k = Some bkt"
    then show "\<exists>e. GetCluster m k = Inl e \<and> is_FormatError e"
      using r [of "zero_cluster\<lparr>ID := k\<rparr>"] by (simp add: GetCluster_def View_def)
  qed
qed

subsection \<open>The label batch\<close>

lemma read_groups_error: "read_groups D i cdef = Inl e \<Longrightarrow> e = NumError"
proof (induction D i cdef rule: read_groups.induct)
  case (1 dbkt i cdef)
  from "1.prems" show ?case
    by (subst (asm) read_groups.simps)
       (auto split: option.splits sum.splits dest: read_group_error "1.IH")
qed

lemma readCluster_error: "readCluster b c = Inl e \<Longrightarrow> is_FormatError e"
  by (auto simp: readCluster_def readClusterDefinition_def readLabels_conv ForEach_cluster_field
        is_FormatError_def
        split: sum.splits prod.splits option.splits
        dest: ReadTimestamps_error read_groups_error)

lemma GetCluster_NotFound:
  assumes "GetCluster m i = Inl ErrNotFound"
  shows "(case getClustersBucket m of None \<Rightarrow> [] | Some b \<Rightarrow> b) = bkt \<Longrightarrow> Bucket bkt i = None"
  using assms
  by (auto simp: GetCluster_def View_def Bucket_def is_FormatError_def
        split: option.splits dest!: readCluster_error)

text \<open>
  C7: if an identifier of the batch refers to an absent entity, \<open>LabelClusters\<close> returns
  NotFound and leaves the store as it was, so no entity of the batch is mutated: no
  label is changed and no updated-timestamp is refreshed, whatever the other
  identifiers, the labels to add and the labels to remove are.
\<close>

theorem C7_label_batch_atomic:
  assumes "i \<in> set ids" and "GetCluster m i = Inl ErrNotFound"
  shows "LabelClusters now m ids adds removes = (Inl ErrNotFound, m)"
proof -
  obtain tx1 bkt where cc: "createClustersBucket m = Inr (tx1, bkt)"
    by (cases "getClustersBucket m")
       (auto simp: createClustersBucket_def getClustersBucket_def)
  from createClustersBucket_Inr [OF cc]
  have "Bucket bkt i = None"
    using GetCluster_NotFound [OF assms(2)] by simp
  then have "\<not> present bkt i"
    by (simp add: present_def)
  with assms(1) have "\<not> list_all (present bkt) ids"
    by (auto simp: list_all_iff)
  then have "batchUpdateLabels bkt ids adds removes (label_one now) [] = Inl ErrNotFound"
    by (simp add: batchUpdateLabels_def)
  with cc show ?thesis
    by (simp add: LabelClusters_def Update_def)
qed

subsection \<open>The statements at the example values\<close>

lemma demo_create:
  "CreateCluster nonempty_id 5 [] demo_cluster
     = (Inr (demo_cluster\<lparr>CreatedAt := 5, UpdatedAt := 5\<rparr>), demo_store)"
proof -
  have "fst (CreateCluster nonempty_id 5 [] demo_cluster)
          = Inr (demo_cluster\<lparr>CreatedAt := 5, UpdatedAt := 5\<rparr>)"
    by code_simp
  then show ?thesis
    by (simp add: demo_store_def prod_eq_iff)
qed

lemma demo_ID: "ID demo_cluster = ''c1''"
  by (simp add: demo_cluster_def)

theorem C9_create_timestamps_witness:
  "CreateCluster nonempty_id 5 [] demo_cluster
     = (Inr (demo_cluster\<lparr>CreatedAt := 5, UpdatedAt := 5\<rparr>), demo_store)
   \<and> GetCluster demo_store ''c1''
     = Inr (canon_cluster (demo_cluster\<lparr>CreatedAt := 5, UpdatedAt := 5\<rparr>))
   \<and> (\<exists>c'. GetCluster demo_store ''c1'' = Inr c' \<and> CreatedAt c' = 5 \<and> UpdatedAt c' = 5)
   \<and> CreateCluster nonempty_id 5 [] (demo_cluster\<lparr>CreatedAt := 1, UpdatedAt := 2\<rparr>)
     = (Inr (demo_cluster\<lparr>CreatedAt := 5, UpdatedAt := 5\<rparr>), demo_store)"
proof -
  note T = C9_create_timestamps [OF demo_create, of 2 1]
  from T have g: "GetCluster demo_store (ID demo_cluster)
      = Inr (canon_cluster (demo_cluster\<lparr>CreatedAt := 5, UpdatedAt := 5\<rparr>))"
    by (elim conjE)
  from T have t: "CreateCluster nonempty_id 5 [] (demo_cluster\<lparr>CreatedAt := 1, UpdatedAt := 2\<rparr>)
     = (Inr (demo_cluster\<lparr>CreatedAt := 5, UpdatedAt := 5\<rparr>), demo_store)"
    by (elim conjE)
  from g have g': "GetCluster demo_store ''c1''
      = Inr (canon_cluster (demo_cluster\<lparr>CreatedAt := 5, UpdatedAt := 5\<rparr>))"
    unfolding demo_ID .
  have "CreatedAt (canon_cluster (demo_cluster\<lparr>CreatedAt := 5, UpdatedAt := 5\<rparr>)) = 5"
    "UpdatedAt (canon_cluster (demo_cluster\<lparr>CreatedAt := 5, UpdatedAt := 5\<rparr>)) = 5"
    by (simp_all add: canon_cluster_def)
  with g' have "\<exists>c'. GetCluster demo_store ''c1'' = Inr c' \<and> CreatedAt c' = 5 \<and> UpdatedAt c' = 5"
    by blast
  with demo_create g' t show ?thesis by blast
qed

theorem C2_create_twice_witness:
  "CreateCluster nonempty_id 5 [] demo_cluster
     = (Inr (demo_cluster\<lparr>CreatedAt := 5, UpdatedAt := 5\<rparr>), demo_store)
   \<and> CreateCluster nonempty_id 9 demo_store (zero_cluster\<lparr>ID := ''c1''\<rparr>)
     = (Inl ErrAlreadyExists, demo_store)"
proof -
  have "ID (zero_cluster\<lparr>ID := ''c1''\<rparr>) = ID demo_cluster"
    by (simp add: demo_ID)
  from C2_create_twice [OF demo_create this, of 9] demo_create show ?thesis
    by simp
qed

text \<open>
  C4, as stated, fails: \<open>UpdateCluster\<close> never reads the stored entity and writes the
  caller's \<open>CreatedAt\<close>. The entity created at time 5 has created-timestamp 0 after an
  update with a cluster value that carries the zero time; and an update at clock reading
  3 leaves updated-timestamp 3, earlier than the previous 5.
\<close>

theorem C4_update_overwrites_created_counterexample:
  "map_sum id CreatedAt (GetCluster demo_store ''c1'') = Inr 5
   \<and> fst (UpdateCluster 9 demo_store (zero_cluster\<lparr>ID := ''c1''\<rparr>))
       = Inr (zero_cluster\<lparr>ID := ''c1'', UpdatedAt := 9\<rparr>)
   \<and> map_sum id CreatedAt
        (GetCluster (snd (UpdateCluster 9 demo_store (zero_cluster\<lparr>ID := ''c1''\<rparr>))) ''c1'')
       = Inr 0
   \<and> map_sum id UpdatedAt (GetCluster demo_store ''c1'') = Inr 5
   \<and> fst (UpdateCluster 3 demo_store demo_cluster) = Inr (demo_cluster\<lparr>UpdatedAt := 3\<rparr>)
   \<and> map_sum id UpdatedAt (GetCluster (snd (UpdateCluster 3 demo_store demo_cluster)) ''c1'')
       = Inr 3"
  by code_simp

theorem C4_update_persists_witness:
  "fst (UpdateCluster 9 demo_store (demo_cluster\<lparr>Status := ''destroying''\<rparr>))
     = Inr (demo_cluster\<lparr>Status := ''destroying'', UpdatedAt := 9\<rparr>)
   \<and> (\<exists>c'. GetCluster (snd (UpdateCluster 9 demo_store (demo_cluster\<lparr>Status := ''destroying''\<rparr>)))
              ''c1'' = Inr c'
          \<and> ID c' = ''c1'' \<and> CreatedAt c' = 5 \<and> UpdatedAt c' = 9)"
proof -
  let ?c = "demo_cluster\<lparr>Status := ''destroying''\<rparr>"
  have f: "fst (UpdateCluster 9 demo_store ?c) = Inr (?c\<lparr>UpdatedAt := 9\<rparr>)"
    by code_simp
  then have u: "UpdateCluster 9 demo_store ?c
      = (Inr (?c\<lparr>UpdatedAt := 9\<rparr>), snd (UpdateCluster 9 demo_store ?c))"
    by (simp add: prod_eq_iff)
  have g: "GetCluster demo_store (ID ?c)
      = Inr (canon_cluster (demo_cluster\<lparr>CreatedAt := 5, UpdatedAt := 5\<rparr>))"
    by code_simp
  have i: "ID ?c = ''c1''" "CreatedAt ?c = 5"
    by (simp_all add: demo_cluster_def)
  from C4_update_persists [OF u g]
  obtain c' where "GetCluster (snd (UpdateCluster 9 demo_store ?c)) (ID ?c) = Inr c'"
    "ID c' = ID ?c" "CreatedAt c' = CreatedAt ?c" "UpdatedAt c' = 9"
    by blast
  then have "GetCluster (snd (UpdateCluster 9 demo_store ?c)) ''c1'' = Inr c'
      \<and> ID c' = ''c1'' \<and> CreatedAt c' = 5 \<and> UpdatedAt c' = 9"
    unfolding i by blast
  with f show ?thesis by blast
qed

text \<open>
  C8, as stated, fails for the empty identifier on the collection that is left without
  entries after the only entity was deleted, and for an identifier under which the
  collection holds a flat value: the entity's container is absent, and the error is the
  store's \<open>ErrIncompatibleValue\<close>, which \<open>DeleteCluster\<close> passes on as it is, not NotFound.
\<close>

theorem C8_delete_incompatible_counterexample:
  "DeleteCluster demo_store ''c1'' = (Inr (), [(''clusters'', Sub [])])
   \<and> getClustersBucket [(''clusters'', Sub [])] = Some []
   \<and> Bucket [] [] = None
   \<and> DeleteCluster [(''clusters'', Sub [])] []
       = (Inl ErrIncompatibleValue, [(''clusters'', Sub [])])
   \<and> getClustersBucket flat_entry_store = Some [(''x'', Val ''v'')]
   \<and> Bucket [(''x'', Val ''v'')] ''x'' = None
   \<and> DeleteCluster flat_entry_store ''x'' = (Inl ErrIncompatibleValue, flat_entry_store)"
  by code_simp

theorem C8_delete_witness:
  "getClustersBucket [(''clusters'', Sub [])] = Some []
   \<and> DeleteCluster [(''clusters'', Sub [])] ''x'' = (Inl ErrNotFound, [(''clusters'', Sub [])])
   \<and> getClustersBucket [] = None
   \<and> DeleteCluster [] ''x'' = (Inr (), [])
   \<and> DeleteCluster demo_store ''c1'' = (Inr (), [(''clusters'', Sub [])])
   \<and> GetCluster [(''clusters'', Sub [])] ''c1'' = Inl ErrNotFound"
proof -
  have h1: "getClustersBucket [(''clusters'', Sub [])] = Some [] \<and> Bucket [] ''x'' = None"
    by (simp add: getClustersBucket_def Bucket_def bucketKeyClusters_def)
  have h2: "getClustersBucket [] = None"
    by (simp add: getClustersBucket_def Bucket_def)
  have h3: "DeleteCluster demo_store ''c1'' = (Inr (), [(''clusters'', Sub [])])"
    by code_simp
  from C8_delete [of "[(''clusters'', Sub [])]" "[]" "''x''" "[]" "''x''" demo_store "''c1''"
      "[(''clusters'', Sub [])]"] h1 h2 h3
  show ?thesis by (simp add: Get_def)
qed

theorem C10_id_from_store_witness:
  "GetCluster foreign_id_store ''k1'' = Inr (zero_cluster\<lparr>ID := ''other''\<rparr>)
   \<and> ListClusters foreign_id_store = Inr [zero_cluster\<lparr>ID := ''other''\<rparr>]
   \<and> ID (zero_cluster\<lparr>ID := ''other''\<rparr>) = ''other''
   \<and> ID ([zero_cluster\<lparr>ID := ''other''\<rparr>] ! 0) = ''other''
   \<and> writeCluster [] demo_cluster = Inr demo_bucket
   \<and> Get demo_bucket bucketKeyID = Some ''c1''"
proof -
  let ?B = "[(''k1'', Sub [(''id'', Val ''other'')])]"
  let ?c = "zero_cluster\<lparr>ID := ''other''\<rparr>"
  have a: "getClustersBucket foreign_id_store = Some ?B"
    by code_simp
  have b: "Bucket ?B ''k1'' = Some [(''id'', Val ''other'')]"
    "Get [(''id'', Val ''other'')] bucketKeyID = Some ''other''"
    by code_simp+
  have k: "keys_of ?B = [''k1'']"
    by code_simp
  have g: "GetCluster foreign_id_store ''k1'' = Inr ?c"
    by code_simp
  have l: "ListClusters foreign_id_store = Inr [?c]"
    by code_simp
  have w: "writeCluster [] demo_cluster = Inr demo_bucket"
    by code_simp
  from C10_id_from_store [of foreign_id_store ?B "''k1''" "[(''id'', Val ''other'')]" "''other''" ?c
      foreign_id_store ?B "[?c]" "[]" demo_cluster demo_bucket] a b k g l w
  show ?thesis by (simp add: demo_ID)
qed

theorem C3_decode_definition_witness:
  "readClusterDefinition [] = Inr \<lparr>Groups = []\<rparr>
   \<and> Bucket gap_definition ''2'' = Some [(''size'', Val ''4'')]
   \<and> readClusterDefinition [(''definition'', Sub gap_definition)]
       = Inr \<lparr>Groups = [zero_group\<lparr>Size := 3\<rparr>]\<rparr>
   \<and> read_group [(''size'', Val ''3'')] = Inr (zero_group\<lparr>Size := 3\<rparr>)
   \<and> Peer (zero_group\<lparr>Size := 3\<rparr>) = None"
proof -
  let ?g = "zero_group\<lparr>Size := 3\<rparr>"
  have a: "Bucket ([] :: bucket) bucketKeyDefinition = None"
    by code_simp
  have b: "Bucket [(''definition'', Sub gap_definition)] bucketKeyDefinition = Some gap_definition"
    by code_simp
  have c: "Bucket gap_definition (Itoa (int 0)) = Some [(''size'', Val ''3'')]"
    "Bucket gap_definition (Itoa (int (length [?g]))) = None"
    "Bucket gap_definition ''2'' = Some [(''size'', Val ''4'')]"
    by code_simp+
  have d: "read_group [(''size'', Val ''3'')] = Inr ?g"
    by code_simp
  have e: "Bucket [(''size'', Val ''3'')] bucketKeyDefinition = None"
    by code_simp
  have f: "Get [(''size'', Val ''3'')] bucketKeySize = Some ''3''" "Atoi ''3'' = Inr 3"
    by code_simp+
  from C3_decode_definition [of "[]" "[(''definition'', Sub gap_definition)]" gap_definition
      "[?g]" "[(''size'', Val ''3'')]" ?g "[(''size'', Val ''3'')]" "''3''" 3] a b c d e f
  show ?thesis by simp
qed

theorem C6_bad_size_witness:
  "Get [(''size'', Val ''3x'')] bucketKeySize = Some ''3x''
   \<and> \<not> decimal_text ''3x''
   \<and> (\<exists>e. readCluster bad_size_cluster zero_cluster = Inl e \<and> is_FormatError e)
   \<and> (\<exists>e. GetCluster [(''clusters'', Sub [(''k'', Sub bad_size_cluster)])] ''k'' = Inl e
          \<and> is_FormatError e)"
proof -
  let ?D = "[(''0'', Sub [(''size'', Val ''3'')]), (''1'', Sub [(''size'', Val ''3x'')])]"
  have a: "Bucket bad_size_cluster bucketKeyDefinition = Some ?D"
    by code_simp
  have b0: "Bucket ?D (Itoa (int 0)) \<noteq> None" "Bucket ?D (Itoa (int 1)) \<noteq> None"
    by code_simp+
  have b: "\<forall>j\<le>1. Bucket ?D (Itoa (int j)) \<noteq> None"
  proof (intro allI impI)
    fix j :: nat assume "j \<le> 1"
    then have "j = 0 \<or> j = 1" by auto
    with b0 show "Bucket ?D (Itoa (int j)) \<noteq> None" by auto
  qed
  have c: "Bucket ?D (Itoa (int 1)) = Some [(''size'', Val ''3x'')]"
    by code_simp
  have d: "Get [(''size'', Val ''3x'')] bucketKeySize = Some ''3x''"
    by code_simp
  have e: "\<not> decimal_text ''3x''"
    by code_simp
  have f: "getClustersBucket [(''clusters'', Sub [(''k'', Sub bad_size_cluster)])]
        = Some [(''k'', Sub bad_size_cluster)]"
    "Bucket [(''k'', Sub bad_size_cluster)] ''k'' = Some bad_size_cluster"
    by code_simp+
  from C6_bad_size [OF a b c d e, of zero_cluster
      "[(''clusters'', Sub [(''k'', Sub bad_size_cluster)])]" "[(''k'', Sub bad_size_cluster)]" "''k''"]
    d e f
  show ?thesis by simp
qed

theorem C7_label_batch_atomic_witness:
  "''zz'' \<in> set [''c1'', ''zz'']
   \<and> GetCluster demo_store ''zz'' = Inl ErrNotFound
   \<and> LabelClusters 9 demo_store [''c1'', ''zz''] [''x''] [] = (Inl ErrNotFound, demo_store)"
proof -
  have a: "''zz'' \<in> set [''c1'', ''zz'']"
    by simp
  have b: "GetCluster demo_store ''zz'' = Inl ErrNotFound"
    by code_simp
  from C7_label_batch_atomic [OF a b, of 9 "[''x'']" "[]"] a b
  show ?thesis by simp
qed

subsection \<open>GenerateLabels\<close>

lemma collect_sets_fst_set:
  "set (fst (collect_sets gs (rs, ts))) = set rs \<union> Region ` set gs"
  by (induction gs arbitrary: rs ts) auto

lemma collect_sets_snd_set:
  "set (snd (collect_sets gs (rs, ts))) = set ts \<union> InstanceType ` set gs"
  by (induction gs arbitrary: rs ts) auto

lemma collect_sets_fst_distinct:
  "distinct rs \<Longrightarrow> distinct (fst (collect_sets gs (rs, ts)))"
  by (induction gs arbitrary: rs ts) auto

lemma collect_sets_snd_distinct:
  "distinct ts \<Longrightarrow> distinct (snd (collect_sets gs (rs, ts)))"
  by (induction gs arbitrary: rs ts) auto

lemma GenerateLabels_split:
  "GenerateLabels d =
     fst (collect_sets (Groups d) ([], [])) @ snd (collect_sets (Groups d) ([], []))"
  by (simp add: GenerateLabels_def split: prod.split)

text \<open>
  C5, as stated, fails: a string that is the region of one group and the instance type
  of a group is listed twice, once from each set.
\<close>

theorem C5_GenerateLabels_duplicate_counterexample:
  "GenerateLabels \<lparr>Groups = [\<lparr>Size = 1, InstanceType = ''x'', Region = ''x'',
       Peer = None, ClusterGroup.Labels = []\<rparr>]\<rparr> = [''x'', ''x'']
   \<and> \<not> distinct (GenerateLabels \<lparr>Groups = [\<lparr>Size = 1, InstanceType = ''x'',
       Region = ''x'', Peer = None, ClusterGroup.Labels = []\<rparr>]\<rparr>)"
  by (simp add: GenerateLabels_def)

text \<open>
  C5, amended: the result holds exactly the regions and instance types of the groups;
  a string occurs once for being a region of some group and once for being an
  instance type of some group, so it occurs at most twice, and exactly once when no
  string is both a region and an instance type.
\<close>

theorem C5_GenerateLabels_union:
  "set (GenerateLabels d) = Region ` set (Groups d) \<union> InstanceType ` set (Groups d)
   \<and> count_list (GenerateLabels d) s =
       (if s \<in> Region ` set (Groups d) then 1 else 0)
       + (if s \<in> InstanceType ` set (Groups d) then 1 else 0)
   \<and> (Region ` set (Groups d) \<inter> InstanceType ` set (Groups d) = {}
        \<longrightarrow> distinct (GenerateLabels d))"
proof -
  let ?rs = "fst (collect_sets (Groups d) ([], []))"
  let ?ts = "snd (collect_sets (Groups d) ([], []))"
  have rs: "set ?rs = Region ` set (Groups d)" "distinct ?rs"
    by (simp_all add: collect_sets_fst_set collect_sets_fst_distinct)
  have ts: "set ?ts = InstanceType ` set (Groups d)" "distinct ?ts"
    by (simp_all add: collect_sets_snd_set collect_sets_snd_distinct)
  have cnt: "count_list xs s = (if s \<in> set xs then 1 else 0)" if "distinct xs" for xs
    using that by (induction xs) auto
  show ?thesis
    unfolding GenerateLabels_split
    using rs ts by (auto simp: cnt)
qed

theorem C5_GenerateLabels_union_witness:
  "set (GenerateLabels \<lparr>Groups = [\<lparr>Size = 3, InstanceType = ''m5'', Region = ''us'',
       Peer = None, ClusterGroup.Labels = []\<rparr>, \<lparr>Size = 1, InstanceType = ''m5'',
       Region = ''eu'', Peer = None, ClusterGroup.Labels = []\<rparr>]\<rparr>) = {''us'', ''eu'', ''m5''}
   \<and> distinct (GenerateLabels \<lparr>Groups = [\<lparr>Size = 3, InstanceType = ''m5'', Region = ''us'',
       Peer = None, ClusterGroup.Labels = []\<rparr>, \<lparr>Size = 1, InstanceType = ''m5'',
       Region = ''eu'', Peer = None, ClusterGroup.Labels = []\<rparr>]\<rparr>)"
  using C5_GenerateLabels_union [of "\<lparr>Groups = [\<lparr>Size = 3, InstanceType = ''m5'',
       Region = ''us'', Peer = None, ClusterGroup.Labels = []\<rparr>, \<lparr>Size = 1,
       InstanceType = ''m5'', Region = ''eu'', Peer = None, ClusterGroup.Labels = []\<rparr>]\<rparr>"]
  by auto

end
